theory Spec2Isabelle
  imports Main "HOL-Library.Sublist"
begin

section \<open>JavaScript strings\<close>

text \<open>
  A JavaScript string is a sequence of UTF-16 code units. Every operation the two scripts
  use (\<^verbatim>\<open>includes\<close>, \<^verbatim>\<open>trim\<close>, \<^verbatim>\<open>substring\<close>, \<^verbatim>\<open>split\<close>,
  \<^verbatim>\<open>match\<close>, \<^verbatim>\<open>replace\<close> without the \<^verbatim>\<open>u\<close> flag) works on code units, so a
  string is a list of code-unit values. \<open>js\<close> reads an ASCII literal of the source.
\<close>

type_synonym jsstring = "nat list"

definition js :: "string \<Rightarrow> jsstring" where
  "js s = map of_char s"

text \<open>\<^verbatim>\<open>WhiteSpace\<close> and \<^verbatim>\<open>LineTerminator\<close> of ECMAScript: what \<^verbatim>\<open>trim\<close> strips and
  what \<^verbatim>\<open>\s\<close> matches.\<close>

definition is_ws :: "nat \<Rightarrow> bool" where
  "is_ws c = (c = 9 \<or> c = 10 \<or> c = 11 \<or> c = 12 \<or> c = 13 \<or> c = 32 \<or> c = 160 \<or> c = 5760
     \<or> (8192 \<le> c \<and> c \<le> 8202) \<or> c = 8232 \<or> c = 8233 \<or> c = 8239 \<or> c = 8287
     \<or> c = 12288 \<or> c = 65279)"

definition trim :: "jsstring \<Rightarrow> jsstring" where
  "trim s = rev (dropWhile is_ws (rev (dropWhile is_ws s)))"

text \<open>\<^verbatim>\<open>s.includes(t)\<close>: \<open>t\<close> occurs in \<open>s\<close> at some index.\<close>

fun includes_str :: "jsstring \<Rightarrow> jsstring \<Rightarrow> bool" where
  "includes_str [] t = (t = [])"
| "includes_str (c # cs) t = (prefix t (c # cs) \<or> includes_str cs t)"

text \<open>\<^verbatim>\<open>Number.prototype.toString\<close> on a non-negative integer: its decimal digits.\<close>

fun toString :: "nat \<Rightarrow> jsstring" where
  "toString n = (if n < 10 then [48 + n] else toString (n div 10) @ [48 + n mod 10])"

declare toString.simps [simp del]


section \<open>Regular expressions\<close>

text \<open>
  The patterns of the two scripts are built from literals, the repeated character classes
  \<^verbatim>\<open>[^c]*\<close>, \<^verbatim>\<open>[^c]+\<close>, \<^verbatim>\<open>[^c]*?\<close>, \<^verbatim>\<open>.*?\<close>, \<^verbatim>\<open>[\s\S]*?\<close>, \<^verbatim>\<open>\s*\<close>,
  capture groups, concatenation and alternation. \<open>re\<close> is their abstract syntax, and
  \<open>rmatch\<close> is the backtracking matcher of ECMAScript written with a continuation: a
  greedy star tries the longest run first and gives characters back, a lazy star tries
  the shortest first, an alternation tries its left branch first.
\<close>

datatype cls = AnyChar | Dot | NotCh nat | Space

fun cls_ok :: "cls \<Rightarrow> nat \<Rightarrow> bool" where
  "cls_ok AnyChar c = True"
| "cls_ok Dot c = (c \<noteq> 10 \<and> c \<noteq> 13 \<and> c \<noteq> 8232 \<and> c \<noteq> 8233)"
| "cls_ok (NotCh x) c = (c \<noteq> x)"
| "cls_ok Space c = is_ws c"

datatype re = Lit jsstring | Star cls | Plus cls | LazyStar cls | Cap re | Seq re re | Alt re re

text \<open>
  \<^verbatim>\<open>Canonicalize\<close> under the \<^verbatim>\<open>i\<close> flag (without \<^verbatim>\<open>u\<close>) upper-cases one code unit,
  and never maps a code unit above 127 to one below 128. Every pattern the scripts use
  with the \<^verbatim>\<open>i\<close> flag is ASCII, so only the ASCII letters need folding: a code unit
  above 127 stays different from every pattern character.
\<close>

definition canon :: "nat \<Rightarrow> nat" where
  "canon c = (if 97 \<le> c \<and> c \<le> 122 then c - 32 else c)"

definition ch_eq :: "bool \<Rightarrow> nat \<Rightarrow> nat \<Rightarrow> bool" where
  "ch_eq ic p c = (if ic then canon p = canon c else p = c)"

fun lit_prefix :: "bool \<Rightarrow> jsstring \<Rightarrow> jsstring \<Rightarrow> bool" where
  "lit_prefix ic [] s = True"
| "lit_prefix ic (p # ps) [] = False"
| "lit_prefix ic (p # ps) (c # cs) = (ch_eq ic p c \<and> lit_prefix ic ps cs)"

fun star_greedy :: "(nat \<Rightarrow> bool) \<Rightarrow> jsstring \<Rightarrow> (jsstring \<Rightarrow> 'r option) \<Rightarrow> 'r option" where
  "star_greedy P [] k = k []"
| "star_greedy P (c # cs) k =
     (if P c then (case star_greedy P cs k of Some r \<Rightarrow> Some r | None \<Rightarrow> k (c # cs))
      else k (c # cs))"

fun star_lazy :: "(nat \<Rightarrow> bool) \<Rightarrow> jsstring \<Rightarrow> (jsstring \<Rightarrow> 'r option) \<Rightarrow> 'r option" where
  "star_lazy P [] k = k []"
| "star_lazy P (c # cs) k =
     (case k (c # cs) of Some r \<Rightarrow> Some r
      | None \<Rightarrow> if P c then star_lazy P cs k else None)"

text \<open>
  \<open>rmatch ic r s caps k\<close> matches \<open>r\<close> at the head of \<open>s\<close> (\<open>ic\<close> is the \<^verbatim>\<open>i\<close> flag),
  then hands the rest of the string and the captures so far to \<open>k\<close>. A group records the
  text it consumed when it closes; the patterns here have at most one group, outside any
  repetition or alternation, so it always takes part in a match.
\<close>

fun rmatch :: "bool \<Rightarrow> re \<Rightarrow> jsstring \<Rightarrow> jsstring list \<Rightarrow>
    (jsstring \<Rightarrow> jsstring list \<Rightarrow> 'r option) \<Rightarrow> 'r option" where
  "rmatch ic (Lit l) s caps k = (if lit_prefix ic l s then k (drop (length l) s) caps else None)"
| "rmatch ic (Star c) s caps k = star_greedy (cls_ok c) s (\<lambda>s'. k s' caps)"
| "rmatch ic (Plus c) s caps k =
     (case s of [] \<Rightarrow> None
      | x # xs \<Rightarrow> if cls_ok c x then star_greedy (cls_ok c) xs (\<lambda>s'. k s' caps) else None)"
| "rmatch ic (LazyStar c) s caps k = star_lazy (cls_ok c) s (\<lambda>s'. k s' caps)"
| "rmatch ic (Cap r) s caps k =
     rmatch ic r s caps (\<lambda>s' caps'. k s' (caps' @ [take (length s - length s') s]))"
| "rmatch ic (Seq a b) s caps k = rmatch ic a s caps (\<lambda>s' caps'. rmatch ic b s' caps' k)"
| "rmatch ic (Alt a b) s caps k =
     (case rmatch ic a s caps k of Some r \<Rightarrow> Some r | None \<Rightarrow> rmatch ic b s caps k)"

text \<open>One match attempt at the head of \<open>s\<close>: the length of the match and its captures.\<close>

definition exec_at :: "bool \<Rightarrow> re \<Rightarrow> jsstring \<Rightarrow> (nat \<times> jsstring list) option" where
  "exec_at ic r s = rmatch ic r s [] (\<lambda>s' caps. Some (length s - length s', caps))"

text \<open>\<^verbatim>\<open>RegExpBuiltinExec\<close> from index 0: the leftmost index with a match, the length of
  the match and the captures. It is what \<^verbatim>\<open>str.match(re)\<close> and \<^verbatim>\<open>re.test(str)\<close>
  compute for a fresh pattern.\<close>

fun search :: "bool \<Rightarrow> re \<Rightarrow> jsstring \<Rightarrow> (nat \<times> nat \<times> jsstring list) option" where
  "search ic r [] =
     (case exec_at ic r [] of None \<Rightarrow> None | Some (n, caps) \<Rightarrow> Some (0, n, caps))"
| "search ic r (c # cs) =
     (case exec_at ic r (c # cs) of
        Some (n, caps) \<Rightarrow> Some (0, n, caps)
      | None \<Rightarrow>
         (case search ic r cs of None \<Rightarrow> None | Some (i, n, caps) \<Rightarrow> Some (Suc i, n, caps)))"

definition test :: "bool \<Rightarrow> re \<Rightarrow> jsstring \<Rightarrow> bool" where
  "test ic r s = (search ic r s \<noteq> None)"

text \<open>A capture of a match result; a group that took no part reads as the empty string
  here (\<^verbatim>\<open>undefined\<close> in the source, which the patterns of the scripts never produce).\<close>

definition capture :: "jsstring list \<Rightarrow> nat \<Rightarrow> jsstring" where
  "capture caps n = (if 1 \<le> n \<and> n \<le> length caps then caps ! (n - 1) else [])"

subsection \<open>\<^verbatim>\<open>String.prototype.replace\<close>\<close>

text \<open>
  \<^verbatim>\<open>GetSubstitution\<close>: the replacement template with \<^verbatim>\<open>$$\<close>, \<^verbatim>\<open>$&\<close>, \<^verbatim>\<open>$`\<close>,
  \<^verbatim>\<open>$'\<close> and \<^verbatim>\<open>$n\<close>, \<^verbatim>\<open>$nn\<close> expanded; any other \<^verbatim>\<open>$\<close> stands for itself.
\<close>

definition is_digit :: "nat \<Rightarrow> bool" where
  "is_digit c = (48 \<le> c \<and> c \<le> 57)"

fun get_substitution :: "jsstring \<Rightarrow> jsstring \<Rightarrow> jsstring \<Rightarrow> jsstring list \<Rightarrow> jsstring \<Rightarrow> jsstring" where
  "get_substitution matched pre post caps [] = []"
| "get_substitution matched pre post caps [c] = [c]"
| "get_substitution matched pre post caps (c # d # t) =
     (if c \<noteq> 36 then c # get_substitution matched pre post caps (d # t)
      else if d = 36 then 36 # get_substitution matched pre post caps t
      else if d = 38 then matched @ get_substitution matched pre post caps t
      else if d = 96 then pre @ get_substitution matched pre post caps t
      else if d = 39 then post @ get_substitution matched pre post caps t
      else if is_digit d then
        (case t of
           [] \<Rightarrow> (if 1 \<le> d - 48 \<and> d - 48 \<le> length caps then capture caps (d - 48) else [36, d])
         | e # t' \<Rightarrow>
            (if is_digit e \<and> 1 \<le> 10 * (d - 48) + (e - 48)
                \<and> 10 * (d - 48) + (e - 48) \<le> length caps
             then capture caps (10 * (d - 48) + (e - 48))
                    @ get_substitution matched pre post caps t'
             else if is_digit e \<and> 10 * (d - 48) + (e - 48) = 0
             then [36, d, e] @ get_substitution matched pre post caps t'
             else if 1 \<le> d - 48 \<and> d - 48 \<le> length caps
             then capture caps (d - 48) @ get_substitution matched pre post caps (e # t')
             else [36, d] @ get_substitution matched pre post caps (e # t')))
      else 36 # get_substitution matched pre post caps (d # t))"

text \<open>\<^verbatim>\<open>str.replace(re, template)\<close> for a pattern without the \<^verbatim>\<open>g\<close> flag: the leftmost
  match only.\<close>

definition replace_first :: "bool \<Rightarrow> re \<Rightarrow> jsstring \<Rightarrow> jsstring \<Rightarrow> jsstring" where
  "replace_first ic r template s =
     (case search ic r s of
        None \<Rightarrow> s
      | Some (i, n, caps) \<Rightarrow>
          take i s
            @ get_substitution (take n (drop i s)) (take i s) (drop (i + n) s) caps template
            @ drop (i + n) s)"

text \<open>
  \<^verbatim>\<open>str.replace(re, template)\<close> for a pattern with the \<^verbatim>\<open>g\<close> flag: \<^verbatim>\<open>lastIndex\<close> is
  reset to 0 and every match found from left to right in the subject is replaced; after
  a match the scan goes on behind it (one code unit further when the match is empty).
  \<open>passed\<close> is the part of the subject already scanned, last code unit first; reversed,
  it is what \<^verbatim>\<open>$`\<close> reads.
\<close>

fun replace_scan :: "bool \<Rightarrow> re \<Rightarrow> jsstring \<Rightarrow> jsstring \<Rightarrow> jsstring \<Rightarrow> jsstring" where
  "replace_scan ic r template passed [] =
     (case exec_at ic r [] of
        None \<Rightarrow> []
      | Some (n, caps) \<Rightarrow> get_substitution [] (rev passed) [] caps template)"
| "replace_scan ic r template passed (c # cs) =
     (case exec_at ic r (c # cs) of
        None \<Rightarrow> c # replace_scan ic r template (c # passed) cs
      | Some (n, caps) \<Rightarrow>
          if n = 0
          then get_substitution [] (rev passed) (c # cs) caps template
                 @ c # replace_scan ic r template (c # passed) cs
          else get_substitution (take n (c # cs)) (rev passed) (drop n (c # cs)) caps template
                 @ replace_scan ic r template (rev (take n (c # cs)) @ passed) (drop (n - 1) cs))"

definition replace_all :: "bool \<Rightarrow> re \<Rightarrow> jsstring \<Rightarrow> jsstring \<Rightarrow> jsstring" where
  "replace_all ic r template s = replace_scan ic r template [] s"

subsection \<open>\<^verbatim>\<open>String.prototype.split\<close> with a pattern\<close>

text \<open>
  The subject is cut at every match found from left to right; the captures of a match are
  spliced in after the piece it ends, and an empty match at the start of a piece does not
  cut. \<open>cur\<close> is the piece being collected, last code unit first. An empty subject gives
  one empty piece, or none when the pattern matches the empty string.
\<close>

fun split_scan :: "bool \<Rightarrow> re \<Rightarrow> jsstring \<Rightarrow> jsstring \<Rightarrow> jsstring list" where
  "split_scan ic r cur [] = [rev cur]"
| "split_scan ic r cur (c # cs) =
     (case exec_at ic r (c # cs) of
        None \<Rightarrow> split_scan ic r (c # cur) cs
      | Some (n, caps) \<Rightarrow>
          if n = 0
          then (if cur = [] then split_scan ic r [c] cs
                else rev cur # caps @ split_scan ic r [c] cs)
          else rev cur # caps @ split_scan ic r [] (drop (n - 1) cs))"

definition split :: "bool \<Rightarrow> re \<Rightarrow> jsstring \<Rightarrow> jsstring list" where
  "split ic r s =
     (if s = [] then (case exec_at ic r [] of None \<Rightarrow> [[]] | Some z \<Rightarrow> [])
      else split_scan ic r [] s)"


section \<open>The metadata patch (\<^verbatim>\<open>scripts/update-epub-metadata.js\<close>)\<close>

text \<open>
  The fixed \<^verbatim>\<open>metadata\<close> object of the script. The Persian values are written as their
  UTF-16 code units; \<open>language\<close>, \<open>publisher\<close> and \<open>rights\<close> are ASCII.
\<close>

record epub_metadata =
  title :: jsstring
  author :: jsstring
  translator :: jsstring
  language :: jsstring
  publisher :: jsstring
  rights :: jsstring
  description :: jsstring
  subject :: jsstring

definition metadata :: epub_metadata where
  "metadata = \<lparr>
     title = [1601, 1602, 1591, 32, 1576, 1585, 1575, 1740, 32, 1578, 1601, 1585, 1740, 1581],
     author = [1604, 1740, 1606, 1608, 1587, 32, 1578, 1608, 1585, 1608, 1575, 1604, 1583,
       1586, 32, 1608, 32, 1583, 1740, 1608, 1740, 1583, 32, 1583, 1740, 1575, 1605, 1608,
       1606, 1583],
     translator = [1580, 1575, 1583, 1740, 32, 1605, 1740, 1585, 1605, 1740, 1585, 1575,
       1606, 1740],
     language = js ''fa'',
     publisher = js ''LinuxStory.ir'',
     rights = js ''CC0 1.0 Universal'',
     description = [1583, 1575, 1587, 1578, 1575, 1606, 32, 1586, 1606, 1583, 1711, 1740, 32,
       1604, 1740, 1606, 1608, 1587, 32, 1578, 1608, 1585, 1608, 1575, 1604, 1583, 1586,
       1548, 32, 1582, 1575, 1604, 1602, 32, 1604, 1740, 1606, 1608, 1705, 1587],
     subject = [1705, 1575, 1605, 1662, 1740, 1608, 1578, 1585, 1548, 32, 1576, 1585, 1606,
       1575, 1605, 1607, 8204, 1606, 1608, 1740, 1587, 1740, 1548, 32, 1604, 1740, 1606,
       1608, 1705, 1587, 1548, 32, 1606, 1585, 1605, 8204, 1575, 1601, 1586, 1575, 1585, 32,
       1570, 1586, 1575, 1583] \<rparr>"

subsection \<open>\<^verbatim>\<open>updateMetadataTag\<close>\<close>

text \<open>
  The pattern \<^verbatim>\<open>new RegExp(`<${fullTag}[^>]*>.*?<\/${fullTag}>`, 'gi')\<close>. The tag name is
  read as a literal: the names passed by the script (\<^verbatim>\<open>dc:title\<close> and the like) hold
  no character that is special in a pattern.
\<close>

definition tag_regex :: "jsstring \<Rightarrow> re" where
  "tag_regex fullTag =
     Seq (Lit (js ''<'' @ fullTag)) (Seq (Star (NotCh 62)) (Seq (Lit (js ''>''))
       (Seq (LazyStar Dot) (Lit (js ''</'' @ fullTag @ js ''>'')))))"

text \<open>The pattern \<^verbatim>\<open>/<\/metadata>/\<close>.\<close>

definition metadata_close :: re where
  "metadata_close = Lit (js ''</metadata>'')"

text \<open>
  \<open>test\<close> on the fresh pattern leaves \<^verbatim>\<open>lastIndex\<close> behind its match, and \<^verbatim>\<open>replace\<close>
  with a \<^verbatim>\<open>g\<close> pattern starts again from index 0.
\<close>

definition updateMetadataTag ::
    "jsstring \<Rightarrow> jsstring \<Rightarrow> jsstring \<Rightarrow> jsstring \<Rightarrow> jsstring \<Rightarrow> jsstring" where
  "updateMetadataTag content namespace tag val attributes =
     (let fullTag = (if namespace \<noteq> [] then namespace @ js '':'' @ tag else tag);
          regex = tag_regex fullTag;
          newTag = js ''<'' @ fullTag @ attributes @ js ''>'' @ val @ js ''</'' @ fullTag @ js ''>''
      in if test True regex content
         then replace_all True regex newTag content
         else replace_first False metadata_close
                (js ''    '' @ newTag @ [10] @ js ''  </metadata>'') content)"

subsection \<open>The field updates and the two insertions of \<^verbatim>\<open>updateEpubMetadata\<close>\<close>

text \<open>Lines 102 to 108: the seven calls, each on the result of the one before.\<close>

definition updateFields :: "jsstring \<Rightarrow> jsstring" where
  "updateFields opfContent =
     (let opfContent = updateMetadataTag opfContent (js ''dc'') (js ''title'') (title metadata) [];
          opfContent = updateMetadataTag opfContent (js ''dc'') (js ''creator'') (author metadata) [];
          opfContent = updateMetadataTag opfContent (js ''dc'') (js ''language'') (language metadata) [];
          opfContent = updateMetadataTag opfContent (js ''dc'') (js ''publisher'') (publisher metadata) [];
          opfContent = updateMetadataTag opfContent (js ''dc'') (js ''rights'') (rights metadata) [];
          opfContent = updateMetadataTag opfContent (js ''dc'') (js ''description'') (description metadata) [];
          opfContent = updateMetadataTag opfContent (js ''dc'') (js ''subject'') (subject metadata) []
      in opfContent)"

text \<open>The translator label of line 111: five Persian letters and a colon.\<close>

definition translator_label :: jsstring where
  "translator_label = [1578, 1585, 1580, 1605, 1607, 58]"

text \<open>Lines 110 to 116: the contributor tag is inserted before \<^verbatim>\<open></metadata>\<close> unless the
  text already holds the translator label.\<close>

definition addContributor :: "jsstring \<Rightarrow> jsstring" where
  "addContributor opfContent =
     (if \<not> includes_str opfContent translator_label
      then replace_first False metadata_close
             (js ''    <dc:contributor>'' @ translator_label @ js '' '' @ translator metadata
                @ js ''</dc:contributor>'' @ [10] @ js ''  </metadata>'') opfContent
      else opfContent)"

text \<open>Lines 118 to 125: \<open>today\<close> is \<^verbatim>\<open>new Date().toISOString().split('T')[0]\<close>, the date
  of the run.\<close>

definition addDate :: "jsstring \<Rightarrow> jsstring \<Rightarrow> jsstring" where
  "addDate today opfContent =
     (if \<not> includes_str opfContent (js ''<dc:date>'')
      then replace_first False metadata_close
             (js ''    <dc:date>'' @ today @ js ''</dc:date>'' @ [10] @ js ''  </metadata>'')
             opfContent
      else opfContent)"


subsection \<open>Repackaging (lines 134 to 150)\<close>

text \<open>
  The scratch directory after the archive was unpacked, as the listing of its root: each
  name with what it names, a file with its content or a directory.
\<close>

datatype node = File jsstring | Directory

type_synonym dir = "(jsstring \<times> node) list"

definition existsSync :: "dir \<Rightarrow> jsstring \<Rightarrow> bool" where
  "existsSync d name = (name \<in> set (map fst d))"

definition writeFileSync :: "dir \<Rightarrow> jsstring \<Rightarrow> jsstring \<Rightarrow> dir" where
  "writeFileSync d name text = (if existsSync d name
     then map (\<lambda>(n, x). if n = name then (n, File text) else (n, x)) d
     else d @ [(name, File text)])"

definition readdirSync :: "dir \<Rightarrow> jsstring list" where
  "readdirSync d = map fst d"

text \<open>
  The two commands \<^verbatim>\<open>zipCmd\<close> can hold: \<open>StoreMimetypeFirst\<close> is
  \<^verbatim>\<open>zip -X0 out mimetype && zip -rg out * -x mimetype\<close>, \<open>PlainRecursive\<close> is
  \<^verbatim>\<open>zip -r out *\<close>.
\<close>

datatype zip_command = StoreMimetypeFirst | PlainRecursive

text \<open>Lines 135 to 138: the \<^verbatim>\<open>mimetype\<close> file is written when the directory has none.\<close>

definition ensureMimetype :: "dir \<Rightarrow> dir" where
  "ensureMimetype d =
     (if \<not> existsSync d (js ''mimetype'')
      then writeFileSync d (js ''mimetype'') (js ''application/epub+zip'')
      else d)"

text \<open>Lines 141 to 150: the command is chosen from the listing of the directory.\<close>

definition zipCmd :: "jsstring list \<Rightarrow> zip_command" where
  "zipCmd files = (if js ''mimetype'' \<in> set files then StoreMimetypeFirst else PlainRecursive)"

definition repackageCmd :: "dir \<Rightarrow> zip_command" where
  "repackageCmd d = zipCmd (readdirSync (ensureMimetype d))"

text \<open>
  Modelled from the spec: the external \<^verbatim>\<open>zip\<close> utility, which is no part of the
  repository. Section 4.4 of the specification: on the conformant path the \<^verbatim>\<open>mimetype\<close>
  entry alone is archived first, uncompressed, then every other entry is added
  compressed, \<^verbatim>\<open>mimetype\<close> excluded; the fallback archives the directory as it is.
\<close>

datatype compression = Stored | Deflated

type_synonym archive = "(jsstring \<times> node \<times> compression) list"

definition run_zip :: "zip_command \<Rightarrow> dir \<Rightarrow> archive" where
  "run_zip cmd d =
     (case cmd of
        StoreMimetypeFirst \<Rightarrow>
          map (\<lambda>(n, x). (n, x, Stored)) (filter (\<lambda>(n, x). n = js ''mimetype'') d)
            @ map (\<lambda>(n, x). (n, x, Deflated)) (filter (\<lambda>(n, x). n \<noteq> js ''mimetype'') d)
      | PlainRecursive \<Rightarrow> map (\<lambda>(n, x). (n, x, Deflated)) d)"

text \<open>The archive the metadata patch leaves, from the unpacked directory.\<close>

definition repackage :: "dir \<Rightarrow> archive" where
  "repackage d = run_zip (repackageCmd d) (ensureMimetype d)"

section \<open>The EPUB build\<close>

text \<open>
  What the build reads from outside: the clock (\<open>date\<close> is
  \<^verbatim>\<open>new Date().toISOString().split('T')[0]\<close>, \<open>book_identifier\<close> is
  \<^verbatim>\<open>'linuxstory-persian-' + Date.now()\<close> and \<open>modified\<close> is \<^verbatim>\<open>new Date().toISOString()\<close>), the
  text of the stylesheet, a constant of the script that nothing below reads, and the
  outcome of the external archive command (its error message when it fails). The other
  fields of the \<^verbatim>\<open>metadata\<close> object are those of \<open>metadata\<close> above.
\<close>

record build_env =
  date :: jsstring
  book_identifier :: jsstring
  modified :: jsstring
  css :: jsstring
  zip_error :: "jsstring option"

text \<open>A chapter record, as pushed on \<^verbatim>\<open>chapters\<close>; \<open>chapterGroup\<close> is its field
  \<^verbatim>\<open>chapter\<close>.\<close>

record chapter_record =
  chapterGroup :: jsstring
  title :: jsstring
  filename :: jsstring
  content :: jsstring

subsection \<open>Static files\<close>

definition mimetype_text :: jsstring where
  \<open>mimetype_text = js ''application/epub+zip''\<close>

definition containerXml :: jsstring where
  \<open>containerXml =
      js ''<?xml version="1.0" encoding="UTF-8"?>'' @ [10]
      @ js ''<container version="1.0" xmlns="urn:oasis:names:tc:opendocum''
      @ js ''ent:xmlns:container">'' @ [10] @ js ''  <rootfiles>'' @ [10]
      @ js ''    <rootfile full-path="OEBPS/content.opf" media-type="appl''
      @ js ''ication/oebps-package+xml"/>'' @ [10] @ js ''  </rootfiles>'' @ [10]
      @ js ''</container>''\<close>

definition displayOptions :: jsstring where
  \<open>displayOptions =
      js ''<?xml version="1.0" encoding="UTF-8"?>'' @ [10] @ js ''<display_options>'' @ [10]
      @ js ''  <platform name="*">'' @ [10]
      @ js ''    <option name="specified-fonts">true</option>'' @ [10]
      @ js ''    <option name="page-progression-direction">rtl</option>'' @ [10]
      @ js ''  </platform>'' @ [10] @ js ''</display_options>''\<close>

subsection \<open>\<^verbatim>\<open>createOPF\<close>\<close>

text \<open>The \<^verbatim>\<open>forEach\<close> of lines 259 to 263, with its index: each chapter adds one item to
  \<open>manifest\<close> and one reference to \<open>spine\<close>.\<close>

definition manifest_item :: "jsstring \<Rightarrow> chapter_record \<Rightarrow> jsstring" where
  \<open>manifest_item id' c =
      js ''    <item id="''
      @ id'
      @ js ''" href="chapters/''
      @ filename c
      @ js ''" media-type="application/xhtml+xml"/>'' @ [10]\<close>

definition spine_item :: "jsstring \<Rightarrow> jsstring" where
  \<open>spine_item id' =
      js ''    <itemref idref="''
      @ id'
      @ js ''"/>'' @ [10]\<close>

fun opf_forEach :: "nat \<Rightarrow> chapter_record list \<Rightarrow> jsstring \<times> jsstring \<Rightarrow> jsstring \<times> jsstring" where
  "opf_forEach index [] (manifest, spine) = (manifest, spine)"
| "opf_forEach index (c # cs) (manifest, spine) =
     (let id' = js ''chapter'' @ toString (index + 1)
      in opf_forEach (Suc index) cs (manifest @ manifest_item id' c, spine @ spine_item id'))"

definition css_item :: jsstring where
  \<open>css_item =
      js ''    <item id="css" href="css/style.css" media-type="text/css'' @ js ''"/>''
      @ [10]\<close>

definition opf_text :: "build_env \<Rightarrow> jsstring \<Rightarrow> jsstring \<Rightarrow> jsstring" where
  \<open>opf_text env manifest spine =
      js ''<?xml version="1.0" encoding="UTF-8"?>'' @ [10]
      @ js ''<package xmlns="http://www.idpf.org/2007/opf" version="3.0" ''
      @ js ''unique-identifier="uid">'' @ [10]
      @ js ''  <metadata xmlns:dc="http://purl.org/dc/elements/1.1/">'' @ [10]
      @ js ''    <dc:identifier id="uid">''
      @ book_identifier env
      @ js ''</dc:identifier>'' @ [10] @ js ''    <dc:title>''
      @ epub_metadata.title metadata
      @ js ''</dc:title>'' @ [10] @ js ''    <dc:creator>''
      @ author metadata
      @ js ''</dc:creator>'' @ [10] @ js ''    <dc:contributor>''
      @ [1578, 1585, 1580, 1605, 1607] @ js '': ''
      @ translator metadata
      @ js ''</dc:contributor>'' @ [10] @ js ''    <dc:language>''
      @ language metadata
      @ js ''</dc:language>'' @ [10] @ js ''    <dc:publisher>''
      @ publisher metadata
      @ js ''</dc:publisher>'' @ [10] @ js ''    <dc:rights>''
      @ rights metadata
      @ js ''</dc:rights>'' @ [10] @ js ''    <dc:description>''
      @ description metadata
      @ js ''</dc:description>'' @ [10] @ js ''    <dc:subject>''
      @ subject metadata
      @ js ''</dc:subject>'' @ [10] @ js ''    <dc:date>''
      @ date env
      @ js ''</dc:date>'' @ [10] @ js ''    <meta property="dcterms:modified">''
      @ modified env
      @ js ''</meta>'' @ [10] @ js ''    <meta name="apple:specified-fonts" content="true"/>''
      @ [10] @ js ''    <meta name="ibooks:version" content="1.0"/>'' @ [10]
      @ js ''  </metadata>'' @ [10] @ js ''  '' @ [10] @ js ''  <manifest>'' @ [10]
      @ js ''    <item id="nav" href="nav.xhtml" media-type="application/''
      @ js ''xhtml+xml" properties="nav"/>'' @ [10]
      @ manifest
      @ js ''  </manifest>'' @ [10] @ js ''  '' @ [10]
      @ js ''  <spine page-progression-direction="rtl">'' @ [10]
      @ js ''    <itemref idref="nav" linear="no"/>'' @ [10]
      @ spine
      @ js ''  </spine>'' @ [10] @ js ''</package>''\<close>

definition createOPF :: "build_env \<Rightarrow> chapter_record list \<Rightarrow> jsstring" where
  "createOPF env chapters =
     (case opf_forEach 0 chapters (css_item, []) of (manifest, spine) \<Rightarrow> opf_text env manifest spine)"

subsection \<open>\<^verbatim>\<open>createNav\<close>\<close>

datatype js_error = TypeError

record nav_state =
  navItems :: jsstring
  currentChapter :: jsstring
  chapterItems :: jsstring

definition nav_group :: "jsstring \<Rightarrow> jsstring \<Rightarrow> jsstring \<Rightarrow> jsstring" where
  \<open>nav_group prevFilename currentChapter' chapterItems' =
      js ''      <li><a href="chapters/''
      @ prevFilename
      @ js ''">''
      @ currentChapter'
      @ js ''</a>'' @ [10] @ js ''        <ol>'' @ [10]
      @ chapterItems'
      @ js ''        </ol>'' @ [10] @ js ''      </li>'' @ [10]\<close>

definition nav_item :: "chapter_record \<Rightarrow> jsstring" where
  \<open>nav_item c =
      js ''          <li><a href="chapters/''
      @ filename c
      @ js ''">''
      @ chapter_record.title c
      @ js ''</a></li>'' @ [10]\<close>

text \<open>
  The \<^verbatim>\<open>forEach\<close> of lines 304 to 316. \<open>all\<close> is the whole array and \<open>index\<close> the
  position of the chapter at hand: \<^verbatim>\<open>chapters[index-1]\<close> is \<^verbatim>\<open>undefined\<close> at index 0, and
  reading its \<^verbatim>\<open>filename\<close> throws.
\<close>

fun nav_forEach :: "chapter_record list \<Rightarrow> nat \<Rightarrow> chapter_record list \<Rightarrow> nav_state \<Rightarrow>
    js_error + nav_state" where
  "nav_forEach all index [] st = Inr st"
| "nav_forEach all index (c # cs) st =
     (if chapterGroup c \<noteq> currentChapter st then
        (if currentChapter st \<noteq> [] then
           (if index = 0 \<or> length all < index then Inl TypeError
            else nav_forEach all (Suc index) cs
              \<lparr> navItems = navItems st
                   @ nav_group (filename (all ! (index - 1))) (currentChapter st) (chapterItems st),
                currentChapter = chapterGroup c,
                chapterItems = nav_item c \<rparr>)
         else nav_forEach all (Suc index) cs
              \<lparr> navItems = navItems st, currentChapter = chapterGroup c, chapterItems = nav_item c \<rparr>)
      else nav_forEach all (Suc index) cs (st\<lparr> chapterItems := chapterItems st @ nav_item c \<rparr>))"

definition nav_text :: "jsstring \<Rightarrow> jsstring" where
  \<open>nav_text navItems' =
      js ''<?xml version="1.0" encoding="UTF-8"?>'' @ [10] @ js ''<!DOCTYPE html>'' @ [10]
      @ js ''<html xmlns="http://www.w3.org/1999/xhtml" xmlns:epub="http:''
      @ js ''//www.idpf.org/2007/ops" xml:lang="fa" dir="rtl">'' @ [10] @ js ''<head>''
      @ [10] @ js ''  <meta charset="UTF-8"/>'' @ [10] @ js ''  <title>''
      @ [1601, 1607, 1585, 1587, 1578] @ js ''</title>'' @ [10]
      @ js ''  <link rel="stylesheet" type="text/css" href="css/style.css'' @ js ''"/>''
      @ [10] @ js ''</head>'' @ [10] @ js ''<body>'' @ [10] @ js ''  <nav epub:type="toc">''
      @ [10] @ js ''    <h1>'' @ [1601, 1607, 1585, 1587, 1578] @ js ''</h1>'' @ [10]
      @ js ''    <ol>'' @ [10]
      @ navItems'
      @ js ''    </ol>'' @ [10] @ js ''  </nav>'' @ [10] @ js ''</body>'' @ [10]
      @ js ''</html>''\<close>

text \<open>Lines 318 to 346: the last group is added when \<^verbatim>\<open>currentChapter\<close> is not empty, and
  the document is assembled.\<close>

definition createNav :: "chapter_record list \<Rightarrow> js_error + jsstring" where
  "createNav chapters =
     (case nav_forEach chapters 0 chapters \<lparr> navItems = [], currentChapter = [], chapterItems = [] \<rparr> of
        Inl e \<Rightarrow> Inl e
      | Inr st \<Rightarrow>
          if currentChapter st \<noteq> [] then
            (if chapters = [] then Inl TypeError
             else Inr (nav_text (navItems st
                    @ nav_group (filename (last chapters)) (currentChapter st) (chapterItems st))))
          else Inr (nav_text (navItems st)))"

subsection \<open>\<^verbatim>\<open>htmlToXHTML\<close>\<close>

definition tag_open :: "string \<Rightarrow> re" where
  "tag_open name = Seq (Lit (js name)) (Seq (Cap (LazyStar (NotCh 62))) (Lit (js ''>'')))"

definition xhtml_shell :: "jsstring \<Rightarrow> jsstring \<Rightarrow> jsstring" where
  \<open>xhtml_shell html title' =
      js ''<?xml version="1.0" encoding="UTF-8"?>'' @ [10] @ js ''<!DOCTYPE html>'' @ [10]
      @ js ''<html xmlns="http://www.w3.org/1999/xhtml" xml:lang="fa" dir'' @ js ''="rtl">''
      @ [10] @ js ''<head>'' @ [10] @ js ''  <meta charset="UTF-8"/>'' @ [10]
      @ js ''  <title>''
      @ title'
      @ js ''</title>'' @ [10]
      @ js ''  <link rel="stylesheet" type="text/css" href="../css/style.'' @ js ''css"/>''
      @ [10] @ js ''</head>'' @ [10] @ js ''<body>'' @ [10] @ js ''  <div class="chapter">''
      @ [10]
      @ html
      @ [10] @ js ''  </div>'' @ [10] @ js ''</body>'' @ [10] @ js ''</html>''\<close>

text \<open>Lines 352 to 363, each \<^verbatim>\<open>replace\<close> with a \<^verbatim>\<open>gi\<close> pattern on the result of the one
  before.\<close>

definition normalize :: "jsstring \<Rightarrow> jsstring" where
  "normalize html =
     (let html = replace_all True (Seq (Lit (js ''<!DOCTYPE'')) (Seq (Star (NotCh 62)) (Lit (js ''>''))))
                   [] html;
          html = replace_all True (Lit (js ''<br>'')) (js ''<br/>'') html;
          html = replace_all True (Lit (js ''<hr>'')) (js ''<hr/>'') html;
          html = replace_all True (tag_open ''<img'') (js ''<img$1/>'') html;
          html = replace_all True (tag_open ''<meta'') (js ''<meta$1/>'') html;
          html = replace_all True (tag_open ''<link'') (js ''<link$1/>'') html;
          html = replace_all True (Lit (js ''&nbsp;'')) (js ''&#160;'') html;
          html = replace_all True (Lit (js ''&copy;'')) (js ''&#169;'') html
      in html)"

definition htmlToXHTML :: "jsstring \<Rightarrow> jsstring \<Rightarrow> jsstring" where
  "htmlToXHTML html title' = xhtml_shell (normalize html) title'"

subsection \<open>The decomposition of \<^verbatim>\<open>buildEPUB\<close>\<close>

text \<open>The patterns of lines 424, 433, 439, 446, 452 and 459. The two heading patterns
  start with \<^verbatim>\<open>^\<close> and have no \<^verbatim>\<open>m\<close> flag, so they can match at index 0 only: their
  \<^verbatim>\<open>match\<close> is one attempt at the head of the string.\<close>

definition body_re :: re where
  "body_re = Seq (Lit (js ''<body'')) (Seq (Star (NotCh 62)) (Seq (Lit (js ''>''))
     (Seq (Cap (LazyStar AnyChar)) (Seq (Lit (js ''</body'')) (Seq (Star Space) (Lit (js ''>'')))))))"

definition heading_re :: "string \<Rightarrow> re" where
  "heading_re close = Seq (Cap (Plus (NotCh 60))) (Seq (Lit (js close)) (Seq (Star (NotCh 62)) (Lit (js ''>''))))"

definition end_re :: re where
  \<open>end_re = Alt (Lit (js ''<h2 >'')) (Alt (Lit (js ''<h1 >''))
     (Lit (js ''<hr><b>'' @ [1601, 1602, 1591] @ js '' '' @ [1576, 1585, 1575, 1740] @ js '' ''
      @ [1578, 1601, 1585, 1740, 1581])))\<close>

record build_state =
  chapterIndex :: nat
  chapters :: "chapter_record list"
  written :: "(jsstring \<times> jsstring) list"

text \<open>Lines 458 to 462: the content ends at the next heading marker or at the separator
  that closes the book.\<close>

definition truncate_section :: "jsstring \<Rightarrow> jsstring" where
  "truncate_section content' =
     (case search False end_re content' of
        None \<Rightarrow> content'
      | Some (index, n, caps) \<Rightarrow> take index content')"

text \<open>The body of the inner loop (lines 449 to 485) for one piece \<open>h2Part\<close>.\<close>

definition h2_step :: "jsstring \<Rightarrow> build_state \<Rightarrow> jsstring \<Rightarrow> build_state" where
  "h2_step chapterName st h2Part =
     (case exec_at False (heading_re ''</h2'') h2Part of
        None \<Rightarrow> st
      | Some (n, caps) \<Rightarrow>
          (let title' = trim (capture caps 1);
               content' = trim (truncate_section (drop n h2Part))
           in if content' \<noteq> [] then
                (let chapterIndex' = chapterIndex st + 1;
                     filename' = js ''chapter'' @ toString chapterIndex' @ js ''.xhtml'';
                     xhtmlContent = htmlToXHTML
                       (js ''<h1>'' @ chapterName @ js ''</h1>'' @ [10] @ js ''<h2>'' @ title'
                          @ js ''</h2>'' @ [10] @ content') title'
                 in \<lparr> chapterIndex = chapterIndex',
                      chapters = chapters st
                        @ [\<lparr> chapterGroup = chapterName, title = title', filename = filename',
                              content = content' \<rparr>],
                      written = written st @ [(js ''OEBPS/chapters/'' @ filename', xhtmlContent)] \<rparr>)
              else st))"

text \<open>The body of the outer loop (lines 436 to 486) for one piece \<open>part\<close>; both loops start
  at index 1, behind the text before the first marker.\<close>

definition h1_step :: "build_state \<Rightarrow> jsstring \<Rightarrow> build_state" where
  "h1_step st part =
     (case exec_at False (heading_re ''</h1'') part of
        None \<Rightarrow> st
      | Some (n, caps) \<Rightarrow>
          (let chapterName = trim (capture caps 1);
               remainingContent = drop n part;
               h2Parts = split False (Lit (js ''<h2 >'')) remainingContent
           in foldl (h2_step chapterName) st (drop 1 h2Parts)))"

definition decompose :: "build_state \<Rightarrow> jsstring \<Rightarrow> build_state" where
  "decompose st bodyContent =
     foldl h1_step st (drop 1 (split False (Lit (js ''<h1 >'')) bodyContent))"

subsection \<open>\<^verbatim>\<open>buildEPUB\<close>\<close>

text \<open>
  Modelled from the spec: the external \<^verbatim>\<open>zip\<close> utility run by line 501,
  \<^verbatim>\<open>zip -X0 out mimetype && zip -rg out META-INF OEBPS\<close>. Section 4.4 of the
  specification: the \<^verbatim>\<open>mimetype\<close> file alone first, uncompressed, then the two directories
  recursively, compressed.
\<close>

definition run_zip_build :: "(jsstring \<times> jsstring) list \<Rightarrow> archive" where
  "run_zip_build files =
     map (\<lambda>(p, t). (p, File t, Stored)) (filter (\<lambda>(p, t). p = js ''mimetype'') files)
       @ map (\<lambda>(p, t). (p, File t, Deflated))
           (filter (\<lambda>(p, t). prefix (js ''META-INF/'') p \<or> prefix (js ''OEBPS/'') p) files)"

text \<open>How the process ends when it does not succeed: the status given to
  \<^verbatim>\<open>process.exit\<close> and the fixed text given to \<^verbatim>\<open>console.error\<close> before.\<close>

datatype exit = Exit nat jsstring

record build_result =
  records :: "chapter_record list"
  files :: "(jsstring \<times> jsstring) list"
  epub :: archive

text \<open>
  \<^verbatim>\<open>buildEPUB\<close> from line 407 on, for the text \<open>allHtml\<close> of \<^verbatim>\<open>out/all.html\<close>. The
  files are listed in the order they are written, with their paths under the build
  directory. An exception of \<^verbatim>\<open>createNav\<close> reaches the \<^verbatim>\<open>catch\<close> of line 526.
\<close>

definition buildEPUB :: "build_env \<Rightarrow> jsstring \<Rightarrow> exit + build_result" where
  "buildEPUB env allHtml =
     (let static = [(js ''mimetype'', mimetype_text),
                    (js ''META-INF/container.xml'', containerXml),
                    (js ''META-INF/com.apple.ibooks.display-options.xml'', displayOptions),
                    (js ''OEBPS/css/style.css'', css env)]
      in case search False body_re allHtml of
           None \<Rightarrow> Inl (Exit 1 ([10060] @ js '' Could not find body content''))
         | Some (index, n, caps) \<Rightarrow>
             (let st = decompose \<lparr> chapterIndex = 0, chapters = [], written = static \<rparr> (capture caps 1);
                  opf = createOPF env (chapters st)
              in case createNav (chapters st) of
                   Inl e \<Rightarrow> Inl (Exit 1 ([10060] @ js '' Build failed:''))
                 | Inr nav \<Rightarrow>
                     (let files' = written st @ [(js ''OEBPS/content.opf'', opf),
                                                 (js ''OEBPS/nav.xhtml'', nav)]
                      in case zip_error env of
                           Some msg \<Rightarrow> Inl (Exit 1 ([10060] @ js '' Error creating EPUB:''))
                         | None \<Rightarrow> Inr \<lparr> records = chapters st, files = files',
                                          epub = run_zip_build files' \<rparr>)))"

section \<open>Notions used in the statements\<close>

text \<open>The file name of the \<open>N\<close>-th emitted record.\<close>

definition chapter_filename :: "nat \<Rightarrow> jsstring" where
  "chapter_filename N = js ''chapter'' @ toString N @ js ''.xhtml''"

text \<open>The loop invariant of the numbering: the counter is the number of records, and the
  records carry the file names 1, 2, \<dots> in order.\<close>

definition numbered :: "build_state \<Rightarrow> bool" where
  "numbered st = (chapterIndex st = length (chapters st)
     \<and> map filename (chapters st) = map chapter_filename [1..<Suc (length (chapters st))])"

text \<open>The file written for a record: its path, and the shell around the normalized text
  that starts with the two regenerated headings.\<close>

definition chapter_file :: "chapter_record \<Rightarrow> jsstring \<times> jsstring" where
  "chapter_file r =
     (js ''OEBPS/chapters/'' @ filename r,
      xhtml_shell (normalize (js ''<h1>'' @ chapterGroup r @ js ''</h1>'' @ [10] @ js ''<h2>''
         @ title r @ js ''</h2>'' @ [10] @ content r)) (title r))"

text \<open>The loop invariant of the writes: after the files \<open>w\<close> written before the loop, one
  file per record, in order.\<close>

definition logged :: "(jsstring \<times> jsstring) list \<Rightarrow> build_state \<Rightarrow> bool" where
  "logged w st = (written st = w @ map chapter_file (chapters st))"

text \<open>The loop invariant of the headings: no record has the character \<^verbatim>\<open><\<close> (code unit
  60) in its group name or in its title, which the pattern \<^verbatim>\<open>[^<]+\<close> has captured.\<close>

definition plain_headings :: "build_state \<Rightarrow> bool" where
  "plain_headings st = (\<forall>r\<in>set (chapters st). 60 \<notin> set (chapterGroup r) \<and> 60 \<notin> set (title r))"

text \<open>In the text \<open>ps @ rest\<close>, no occurrence of the literal \<open>l\<close> starts within \<open>ps\<close>.\<close>

fun no_start :: "bool \<Rightarrow> jsstring \<Rightarrow> jsstring \<Rightarrow> jsstring \<Rightarrow> bool" where
  "no_start ic l [] rest = True"
| "no_start ic l (p # ps) rest = (\<not> lit_prefix ic l (p # ps @ rest) \<and> no_start ic l ps rest)"

text \<open>An environment for the concrete runs below: a build on 2024-01-01 with an empty
  stylesheet and an archive command that succeeds.\<close>

definition env_2024 :: build_env where
  "env_2024 = \<lparr> date = js ''2024-01-01'',
     book_identifier = js ''linuxstory-persian-1704067200000'',
     modified = js ''2024-01-01T00:00:00.000Z'', css = [], zip_error = None \<rparr>"

text \<open>The package document up to the opening of its manifest: the XML declaration, the
  \<^verbatim>\<open>package\<close> element and the metadata block.\<close>

definition opf_head :: "build_env \<Rightarrow> jsstring" where
  \<open>opf_head env =
      js ''<?xml version="1.0" encoding="UTF-8"?>'' @ [10]
      @ js ''<package xmlns="http://www.idpf.org/2007/opf" version="3.0" ''
      @ js ''unique-identifier="uid">'' @ [10]
      @ js ''  <metadata xmlns:dc="http://purl.org/dc/elements/1.1/">'' @ [10]
      @ js ''    <dc:identifier id="uid">''
      @ book_identifier env
      @ js ''</dc:identifier>'' @ [10] @ js ''    <dc:title>''
      @ epub_metadata.title metadata
      @ js ''</dc:title>'' @ [10] @ js ''    <dc:creator>''
      @ author metadata
      @ js ''</dc:creator>'' @ [10] @ js ''    <dc:contributor>''
      @ [1578, 1585, 1580, 1605, 1607] @ js '': ''
      @ translator metadata
      @ js ''</dc:contributor>'' @ [10] @ js ''    <dc:language>''
      @ language metadata
      @ js ''</dc:language>'' @ [10] @ js ''    <dc:publisher>''
      @ publisher metadata
      @ js ''</dc:publisher>'' @ [10] @ js ''    <dc:rights>''
      @ rights metadata
      @ js ''</dc:rights>'' @ [10] @ js ''    <dc:description>''
      @ description metadata
      @ js ''</dc:description>'' @ [10] @ js ''    <dc:subject>''
      @ subject metadata
      @ js ''</dc:subject>'' @ [10] @ js ''    <dc:date>''
      @ date env
      @ js ''</dc:date>'' @ [10] @ js ''    <meta property="dcterms:modified">''
      @ modified env
      @ js ''</meta>'' @ [10] @ js ''    <meta name="apple:specified-fonts" content="true"/>''
      @ [10] @ js ''    <meta name="ibooks:version" content="1.0"/>'' @ [10]
      @ js ''  </metadata>'' @ [10] @ js ''  '' @ [10] @ js ''  <manifest>'' @ [10]\<close>

text \<open>The identifier of the chapter at position \<open>i\<close> of the record sequence, counted from 0.\<close>

definition chapter_id :: "nat \<Rightarrow> jsstring" where
  "chapter_id i = js ''chapter'' @ toString (i + 1)"

text \<open>
  The grouping of the navigation document in the words of the specification: the records
  are cut into runs of consecutive records that share a chapter-group, a new run starting
  whenever the group differs from that of the record before.
\<close>


function group_runs :: "chapter_record list \<Rightarrow> chapter_record list list" where
  "group_runs [] = []"
| "group_runs (c # cs) =
     (c # takeWhile (\<lambda>d. chapterGroup d = chapterGroup c) cs)
       # group_runs (dropWhile (\<lambda>d. chapterGroup d = chapterGroup c) cs)"
  by pat_completeness auto
termination
  by (relation "measure length") (auto simp: less_Suc_eq_le length_dropWhile_le)

text \<open>The nested list of one run: the group name, linked to the file of the last record of
  the run, over one item per record.\<close>

definition nav_run :: "chapter_record list \<Rightarrow> jsstring" where
  \<open>nav_run r =
      js ''      <li><a href="chapters/'' @ filename (last r) @ js ''">'' @ chapterGroup (hd r)
      @ js ''</a>'' @ [10] @ js ''        <ol>'' @ [10]
      @ concat (map (\<lambda>c. js ''          <li><a href="chapters/'' @ filename c @ js ''">''
                     @ chapter_record.title c @ js ''</a></li>'' @ [10]) r)
      @ js ''        </ol>'' @ [10] @ js ''      </li>'' @ [10]\<close>

text \<open>The loop of \<^verbatim>\<open>createNav\<close> as a function of the group at hand \<open>g\<close>, the file \<open>f\<close> of
  the record before and the items collected so far, with the last group added.\<close>

fun nav_emit :: "jsstring \<Rightarrow> jsstring \<Rightarrow> jsstring \<Rightarrow> chapter_record list \<Rightarrow> jsstring" where
  "nav_emit g f items [] = nav_group f g items"
| "nav_emit g f items (c # cs) =
     (if chapterGroup c \<noteq> g
      then nav_group f g items @ nav_emit (chapterGroup c) (filename c) (nav_item c) cs
      else nav_emit g (filename c) (items @ nav_item c) cs)"


text \<open>Records for the concrete runs below; the last one has an empty group name, as a
  top-level heading that holds only whitespace gives.\<close>
definition rec_a1 :: chapter_record where
  "rec_a1 = \<lparr> chapterGroup = js ''A'', title = js ''One'', filename = js ''chapter1.xhtml'', content = js ''x'' \<rparr>"
definition rec_b :: chapter_record where
  "rec_b = \<lparr> chapterGroup = js ''B'', title = js ''Two'', filename = js ''chapter2.xhtml'', content = js ''y'' \<rparr>"
definition rec_a2 :: chapter_record where
  "rec_a2 = \<lparr> chapterGroup = js ''A'', title = js ''Three'', filename = js ''chapter3.xhtml'', content = js ''z'' \<rparr>"
definition rec_blank :: chapter_record where
  "rec_blank = \<lparr> chapterGroup = [], title = js ''T'', filename = js ''chapter1.xhtml'', content = js ''x'' \<rparr>"


section \<open>Evaluation\<close>

text \<open>The equations that run the string and pattern functions on a concrete text.\<close>

lemmas re_ev = js_def exec_at_def canon_def ch_eq_def is_ws_def test_def replace_all_def
  replace_first_def is_digit_def capture_def split_def trim_def toString.simps

lemmas build_ev = decompose_def h1_step_def h2_step_def heading_re_def end_re_def
  truncate_section_def Let_def

section \<open>Loops and invariants\<close>

lemma foldl_preserves:
  assumes "\<And>s x. P s \<Longrightarrow> P (f s x)" and "P s"
  shows "P (foldl f s xs)"
  using assms(2) by (induction xs arbitrary: s) (auto intro: assms(1))

lemma dropWhile_all: "(\<forall>c\<in>set (dropWhile P s). P c) = (\<forall>c\<in>set s. P c)"
  by (induction s) auto

lemma trim_empty: "(trim s = []) = (\<forall>c\<in>set s. is_ws c)"
  by (simp add: trim_def dropWhile_all)

lemma numbered_h2_step: "numbered st \<Longrightarrow> numbered (h2_step chapterName st h2Part)"
  by (auto simp: numbered_def h2_step_def Let_def chapter_filename_def split: option.splits)

lemma numbered_h1_step: "numbered st \<Longrightarrow> numbered (h1_step st part)"
  unfolding h1_step_def Let_def
  by (auto split: option.splits intro: foldl_preserves numbered_h2_step)

lemma numbered_decompose: "numbered st \<Longrightarrow> numbered (decompose st bodyContent)"
  unfolding decompose_def by (rule foldl_preserves) (rule numbered_h1_step)

lemma logged_h2_step: "logged w st \<Longrightarrow> logged w (h2_step chapterName st h2Part)"
  by (auto simp: logged_def h2_step_def Let_def chapter_file_def htmlToXHTML_def
      split: option.splits)

lemma logged_h1_step: "logged w st \<Longrightarrow> logged w (h1_step st part)"
  unfolding h1_step_def Let_def
  by (auto split: option.splits intro: foldl_preserves logged_h2_step)

lemma logged_decompose: "logged w st \<Longrightarrow> logged w (decompose st bodyContent)"
  unfolding decompose_def by (rule foldl_preserves) (rule logged_h1_step)

lemma written_decompose:
  "written (decompose \<lparr> chapterIndex = 0, chapters = [], written = w \<rparr> bodyContent)
     = w @ map chapter_file
         (chapters (decompose \<lparr> chapterIndex = 0, chapters = [], written = w \<rparr> bodyContent))"
proof -
  have "logged w \<lparr> chapterIndex = 0, chapters = [], written = w \<rparr>"
    by (simp add: logged_def)
  then have "logged w (decompose \<lparr> chapterIndex = 0, chapters = [], written = w \<rparr> bodyContent)"
    by (rule logged_decompose)
  then show ?thesis by (simp add: logged_def)
qed

lemma exists_after_write: "existsSync (writeFileSync d name text) name"
  by (auto simp: existsSync_def writeFileSync_def image_iff split: prod.splits)

section \<open>The first entry of the archives\<close>


lemma filter_key_hd:
  "map_of d k = Some x \<Longrightarrow> \<exists>rest. filter (\<lambda>(n, y). n = k) d = (k, x) # rest"
  by (induction d) (auto split: if_splits)

lemma filter_key_none: "map_of d k = None \<Longrightarrow> filter (\<lambda>(n, y). n = k) d = []"
  by (induction d) (auto split: if_splits)

lemma existsSync_map_of: "existsSync d k = (map_of d k \<noteq> None)"
  by (simp add: existsSync_def map_of_eq_None_iff)

lemma repackageCmd_store: "repackageCmd d = StoreMimetypeFirst"
proof -
  have "existsSync (ensureMimetype d) (js ''mimetype'')"
    by (simp add: ensureMimetype_def exists_after_write)
  then show ?thesis by (simp add: repackageCmd_def zipCmd_def readdirSync_def existsSync_def)
qed

lemma repackage_first:
  "\<exists>rest. repackage d =
     (js ''mimetype'',
      (case map_of d (js ''mimetype'') of None \<Rightarrow> File (js ''application/epub+zip'') | Some x \<Rightarrow> x),
      Stored) # rest"
proof (cases "map_of d (js ''mimetype'')")
  case None
  then have e: "ensureMimetype d = d @ [(js ''mimetype'', File (js ''application/epub+zip''))]"
    by (simp add: ensureMimetype_def existsSync_map_of writeFileSync_def)
  show ?thesis
    unfolding repackage_def repackageCmd_store e run_zip_def
    by (simp add: None filter_key_none)
next
  case (Some x)
  then have e: "ensureMimetype d = d" by (simp add: ensureMimetype_def existsSync_map_of)
  from filter_key_hd [OF Some]
  obtain rest where "filter (\<lambda>(n, y). n = js ''mimetype'') d = (js ''mimetype'', x) # rest" ..
  then show ?thesis
    unfolding repackage_def repackageCmd_store e run_zip_def by (simp add: Some)
qed

lemma build_first:
  assumes "buildEPUB env allHtml = Inr r"
  shows "\<exists>rest. epub r = (js ''mimetype'', File (js ''application/epub+zip''), Stored) # rest"
proof -
  from assms obtain fs where "epub r = run_zip_build ((js ''mimetype'', mimetype_text) # fs)"
    by (auto simp: buildEPUB_def Let_def written_decompose split: option.splits sum.splits)
  then show ?thesis by (simp add: run_zip_build_def mimetype_text_def)
qed



section \<open>Literal prefixes under replacement\<close>

text \<open>A text in which no match of a pattern starts passes a global replacement unchanged,
  and the two headings put before the content of a chapter are such a text for every
  pattern of the normalization, when the names hold neither \<^verbatim>\<open><\<close> nor \<^verbatim>\<open>&\<close>.\<close>

lemma no_start_append:
  "no_start ic l (a @ b) rest = (no_start ic l a (b @ rest) \<and> no_start ic l b rest)"
  by (induction a) auto

lemma no_start_other:
  "\<forall>x\<in>set g. \<not> ch_eq ic p x \<Longrightarrow> no_start ic (p # ps) g rest"
  by (induction g) auto

lemma gs_pre:
  "96 \<notin> set template \<Longrightarrow>
   get_substitution matched pre post caps template = get_substitution matched pre' post caps template"
proof (induction "length template" arbitrary: template rule: less_induct)
  case less
  show ?case
  proof (cases template)
    case Nil
    then show ?thesis by simp
  next
    case t1: (Cons c t1)
    show ?thesis
    proof (cases t1)
      case Nil
      with t1 show ?thesis by simp
    next
      case (Cons d t)
      from less.prems t1 Cons have d: "d \<noteq> 96" by simp
      have a: "get_substitution matched pre post caps (d # t)
          = get_substitution matched pre' post caps (d # t)"
        by (rule less.hyps) (use less.prems t1 Cons in simp_all)
      have b: "get_substitution matched pre post caps t
          = get_substitution matched pre' post caps t"
        by (rule less.hyps) (use less.prems t1 Cons in simp_all)
      show ?thesis
      proof (cases t)
        case Nil
        show ?thesis unfolding t1 Cons
          apply (subst get_substitution.simps(3) [of matched pre])
          apply (subst get_substitution.simps(3) [of matched pre'])
          apply (simp only: a b d if_False)
          apply (simp only: Nil list.case)
          done
      next
        case e: (Cons e t')
        have c: "get_substitution matched pre post caps t'
            = get_substitution matched pre' post caps t'"
          by (rule less.hyps) (use less.prems t1 Cons e in simp_all)
        from a b have a': "get_substitution matched pre post caps (d # e # t')
          = get_substitution matched pre' post caps (d # e # t')"
          and b': "get_substitution matched pre post caps (e # t')
          = get_substitution matched pre' post caps (e # t')" unfolding e by simp_all
        show ?thesis unfolding t1 Cons
          apply (subst get_substitution.simps(3) [of matched pre])
          apply (subst get_substitution.simps(3) [of matched pre'])
          apply (simp only: e list.case a' b' c d if_False)
          done
      qed
    qed
  qed
qed

lemma replace_scan_passed:
  "96 \<notin> set template \<Longrightarrow>
   replace_scan ic r template passed s = replace_scan ic r template passed' s"
proof (induction ic r template passed s arbitrary: passed' rule: replace_scan.induct)
  case (1 ic r template passed)
  then show ?case by (auto split: option.splits intro: gs_pre)
next
  case (2 ic r template passed c cs)
  show ?case
  proof (cases "exec_at ic r (c # cs)")
    case None
    from 2(1) [OF None 2(4)] None show ?thesis by simp
  next
    case (Some a)
    obtain n caps where a: "a = (n, caps)" by (cases a)
    show ?thesis
    proof (cases "n = 0")
      case True
      have ih: "replace_scan ic r template (c # passed) cs
          = replace_scan ic r template (c # passed') cs"
        by (rule 2(2) [OF Some a [symmetric] True 2(4)])
      have g: "get_substitution [] (rev passed) (c # cs) caps template
          = get_substitution [] (rev passed') (c # cs) caps template"
        by (rule gs_pre [OF 2(4)])
      show ?thesis using Some a True ih g by simp
    next
      case False
      have ih: "replace_scan ic r template (rev (take n (c # cs)) @ passed) (drop (n - 1) cs)
          = replace_scan ic r template (rev (take n (c # cs)) @ passed') (drop (n - 1) cs)"
        by (rule 2(3) [OF Some a [symmetric] False 2(4)])
      have g: "get_substitution (take n (c # cs)) (rev passed) (drop n (c # cs)) caps template
          = get_substitution (take n (c # cs)) (rev passed') (drop n (c # cs)) caps template"
        by (rule gs_pre [OF 2(4)])
      show ?thesis using Some a False ih g by simp
    qed
  qed
qed

lemma exec_at_Lit_None: "\<not> lit_prefix ic l s \<Longrightarrow> exec_at ic (Lit l) s = None"
  by (simp add: exec_at_def)

lemma exec_at_Seq_Lit_None: "\<not> lit_prefix ic l s \<Longrightarrow> exec_at ic (Seq (Lit l) r) s = None"
  by (simp add: exec_at_def)

lemma replace_scan_skip:
  assumes "\<And>s. \<not> lit_prefix ic l s \<Longrightarrow> exec_at ic r s = None"
  shows "no_start ic l ps rest \<Longrightarrow>
    replace_scan ic r template passed (ps @ rest)
      = ps @ replace_scan ic r template (rev ps @ passed) rest"
proof (induction ps arbitrary: passed)
  case Nil
  show ?case by simp
next
  case (Cons p ps)
  then have "exec_at ic r (p # ps @ rest) = None" by (simp add: assms)
  with Cons show ?case by simp
qed

lemma replace_all_skip:
  assumes "\<And>s. \<not> lit_prefix ic l s \<Longrightarrow> exec_at ic r s = None"
    and "no_start ic l ps rest" and "96 \<notin> set template"
  shows "replace_all ic r template (ps @ rest) = ps @ replace_all ic r template rest"
proof -
  have "replace_scan ic r template [] (ps @ rest)
      = ps @ replace_scan ic r template (rev ps @ []) rest"
    using assms(1) assms(2) by (rule replace_scan_skip)
  also have "replace_scan ic r template (rev ps @ []) rest = replace_scan ic r template [] rest"
    by (rule replace_scan_passed [OF assms(3)])
  finally show ?thesis by (simp add: replace_all_def)
qed


lemma ch_eq_lt: "ch_eq True 60 x = (x = 60)"
  by (auto simp: ch_eq_def canon_def)

lemma ch_eq_amp: "ch_eq True 38 x = (x = 38)"
  by (auto simp: ch_eq_def canon_def)

lemma no_start_headings:
  assumes "\<forall>x\<in>set g. x \<noteq> 60 \<and> x \<noteq> 38" and "\<forall>x\<in>set t. x \<noteq> 60 \<and> x \<noteq> 38"
    and "l \<in> {js ''<!DOCTYPE'', js ''<br>'', js ''<hr>'', js ''<img'', js ''<meta'', js ''<link'',
          js ''&nbsp;'', js ''&copy;''}"
  shows "no_start True l
     (js ''<h1>'' @ g @ js ''</h1>'' @ [10] @ js ''<h2>'' @ t @ js ''</h2>'' @ [10]) rest"
proof -
  have a: "no_start True (60 # ps) g rest'" "no_start True (38 # ps) g rest'"
    "no_start True (60 # ps) t rest'" "no_start True (38 # ps) t rest'" for ps rest'
    using assms(1,2) by (auto intro!: no_start_other simp: ch_eq_lt ch_eq_amp)
  from assms(3) consider "l = js ''<!DOCTYPE''" | "l = js ''<br>''" | "l = js ''<hr>''"
    | "l = js ''<img''" | "l = js ''<meta''" | "l = js ''<link''" | "l = js ''&nbsp;''"
    | "l = js ''&copy;''" by blast
  then show ?thesis
    by cases (simp_all add: js_def no_start_append a ch_eq_def canon_def)
qed

lemma normalize_headings:
  assumes "\<forall>x\<in>set g. x \<noteq> 60 \<and> x \<noteq> 38" and "\<forall>x\<in>set t. x \<noteq> 60 \<and> x \<noteq> 38"
  shows "normalize (js ''<h1>'' @ g @ js ''</h1>'' @ [10] @ js ''<h2>'' @ t @ js ''</h2>'' @ [10] @ c)
     = js ''<h1>'' @ g @ js ''</h1>'' @ [10] @ js ''<h2>'' @ t @ js ''</h2>'' @ [10] @ normalize c"
proof -
  define H where "H = js ''<h1>'' @ g @ js ''</h1>'' @ [10] @ js ''<h2>'' @ t @ js ''</h2>'' @ [10]"
  have q: "no_start True l H rest"
    if "l \<in> {js ''<!DOCTYPE'', js ''<br>'', js ''<hr>'', js ''<img'', js ''<meta'', js ''<link'',
          js ''&nbsp;'', js ''&copy;''}" for l rest
    unfolding H_def using assms that by (rule no_start_headings)
  have s1: "replace_all True (Lit l) tmpl (H @ x) = H @ replace_all True (Lit l) tmpl x"
    if "l \<in> {js ''<!DOCTYPE'', js ''<br>'', js ''<hr>'', js ''<img'', js ''<meta'', js ''<link'',
          js ''&nbsp;'', js ''&copy;''}" and "96 \<notin> set tmpl" for l tmpl x
    by (rule replace_all_skip [OF exec_at_Lit_None q [OF that(1)] that(2)])
  have s2: "replace_all True (Seq (Lit l) r) tmpl (H @ x) = H @ replace_all True (Seq (Lit l) r) tmpl x"
    if "l \<in> {js ''<!DOCTYPE'', js ''<br>'', js ''<hr>'', js ''<img'', js ''<meta'', js ''<link'',
          js ''&nbsp;'', js ''&copy;''}" and "96 \<notin> set tmpl" for l r tmpl x
    by (rule replace_all_skip [OF exec_at_Seq_Lit_None q [OF that(1)] that(2)])
  have "normalize (H @ c) = H @ normalize c"
    unfolding normalize_def Let_def tag_open_def by (simp add: s1 s2 js_def)
  then show ?thesis by (simp add: H_def)
qed

lemma star_greedy_Some:
  "star_greedy P s k = Some r \<Longrightarrow> \<exists>p s'. s = p @ s' \<and> (\<forall>x\<in>set p. P x) \<and> k s' = Some r"
proof (induction s)
  case Nil
  then show ?case by simp
next
  case (Cons c cs)
  show ?case
  proof (cases "P c \<and> star_greedy P cs k \<noteq> None")
    case True
    with Cons.prems have "star_greedy P cs k = Some r" by (auto split: option.splits)
    from Cons.IH [OF this] obtain p s' where "cs = p @ s'" "\<forall>x\<in>set p. P x" "k s' = Some r"
      by blast
    with True have "c # cs = (c # p) @ s' \<and> (\<forall>x\<in>set (c # p). P x) \<and> k s' = Some r" by simp
    then show ?thesis by blast
  next
    case False
    with Cons.prems have "k (c # cs) = Some r" by (auto split: option.splits if_splits)
    then have "c # cs = [] @ (c # cs) \<and> (\<forall>x\<in>set []. P x) \<and> k (c # cs) = Some r" by simp
    then show ?thesis by blast
  qed
qed

lemma tail_caps:
  "rmatch ic (Seq (Lit l) (Seq (Star c) (Lit l2))) s cs (\<lambda>s' caps. Some (f s', caps)) = Some (n, caps)
   \<Longrightarrow> caps = cs"
  apply (simp split: if_splits)
  apply (drule star_greedy_Some)
  apply (auto split: if_splits)
  done

lemma heading_capture:
  assumes "exec_at False (heading_re close) s = Some (n, caps)"
  shows "60 \<notin> set (capture caps 1)"
proof (cases s)
  case Nil
  with assms show ?thesis by (simp add: exec_at_def heading_re_def)
next
  case (Cons x xs)
  let ?K = "\<lambda>(s' :: jsstring) (caps :: jsstring list). Some (length s - length s', caps)"
  let ?R = "Seq (Lit (js close)) (Seq (Star (NotCh 62)) (Lit (js ''>'')))"
  from assms Cons have x: "x \<noteq> 60"
    and g: "star_greedy (cls_ok (NotCh 60)) xs
       (\<lambda>s'. rmatch False ?R s' [take (length s - length s') s] ?K) = Some (n, caps)"
    by (simp_all add: exec_at_def heading_re_def split: if_splits cong: if_cong)
  from star_greedy_Some [OF g] obtain p s' where p: "xs = p @ s'" "\<forall>y\<in>set p. cls_ok (NotCh 60) y"
    and r: "rmatch False ?R s' [take (length s - length s') s] ?K = Some (n, caps)"
    by blast
  from p Cons have t: "take (length s - length s') s = x # p" by simp
  from r have "caps = [x # p]" unfolding t by (rule tail_caps)
  with x p(2) show ?thesis by (auto simp: capture_def)
qed

lemma set_trim: "set (trim s) \<subseteq> set s"
proof -
  have "set (trim s) \<subseteq> set (dropWhile is_ws s)"
    unfolding trim_def set_rev using set_dropWhileD [of _ is_ws "rev (dropWhile is_ws s)"] by auto
  also have "\<dots> \<subseteq> set s" using set_dropWhileD [of _ is_ws s] by auto
  finally show ?thesis .
qed

lemma trim_capture:
  "exec_at False (heading_re close) s = Some (n, caps) \<Longrightarrow> 60 \<notin> set (trim (capture caps 1))"
  using heading_capture [of close s n caps] set_trim [of "capture caps 1"] by blast

lemma plain_h2_step:
  assumes "60 \<notin> set chapterName" and "plain_headings st"
  shows "plain_headings (h2_step chapterName st h2Part)"
proof (cases "exec_at False (heading_re ''</h2'') h2Part")
  case None
  with assms(2) show ?thesis by (simp add: h2_step_def)
next
  case (Some a)
  obtain n caps where a: "a = (n, caps)" by (cases a)
  from Some a have "exec_at False (heading_re ''</h2'') h2Part = Some (n, caps)" by simp
  then have "60 \<notin> set (trim (capture caps 1))" by (rule trim_capture)
  with assms Some a show ?thesis
    by (simp add: plain_headings_def h2_step_def Let_def del: One_nat_def)
qed

lemma plain_h1_step:
  assumes "plain_headings st"
  shows "plain_headings (h1_step st part)"
proof (cases "exec_at False (heading_re ''</h1'') part")
  case None
  with assms show ?thesis by (simp add: h1_step_def)
next
  case (Some a)
  obtain n caps where a: "a = (n, caps)" by (cases a)
  from Some a have "exec_at False (heading_re ''</h1'') part = Some (n, caps)" by simp
  then have c: "60 \<notin> set (trim (capture caps 1))" by (rule trim_capture)
  have "plain_headings (foldl (h2_step (trim (capture caps 1))) st
      (drop 1 (split False (Lit (js ''<h2 >'')) (drop n part))))"
    by (rule foldl_preserves) (erule plain_h2_step [OF c], rule assms)
  with Some a show ?thesis by (simp add: h1_step_def Let_def del: One_nat_def)
qed

lemma plain_decompose: "plain_headings st \<Longrightarrow> plain_headings (decompose st bodyContent)"
  unfolding decompose_def by (rule foldl_preserves) (rule plain_h1_step)


section \<open>Literal patterns and occurrences\<close>

text \<open>A search for a literal pattern finds the first occurrence of the literal, and the
  replacement of this occurrence leaves every occurrence of a text that shares no
  character with the literal.\<close>

lemma lit_prefix_False: "lit_prefix False l s = prefix l s"
  by (induction False l s rule: lit_prefix.induct) (simp_all add: ch_eq_def)

lemma exec_at_Lit:
  "exec_at False (Lit l) s = (if prefix l s then Some (length l, []) else None)"
  by (auto simp: exec_at_def lit_prefix_False dest: prefix_length_le)

lemma includes_str_iff: "includes_str s t = (\<exists>p q. s = p @ t @ q)"
proof (induction s)
  case Nil
  show ?case by auto
next
  case (Cons c cs)
  show ?case
  proof
    assume "includes_str (c # cs) t"
    then consider "prefix t (c # cs)" | "includes_str cs t" by auto
    then show "\<exists>p q. c # cs = p @ t @ q"
    proof cases
      case 1
      then obtain q where "c # cs = t @ q" by (auto simp: prefix_def)
      then have "c # cs = [] @ t @ q" by simp
      then show ?thesis by blast
    next
      case 2
      with Cons obtain p q where "cs = p @ t @ q" by auto
      then have "c # cs = (c # p) @ t @ q" by simp
      then show ?thesis by blast
    qed
  next
    assume "\<exists>p q. c # cs = p @ t @ q"
    then obtain p q where e: "c # cs = p @ t @ q" by blast
    show "includes_str (c # cs) t"
    proof (cases p)
      case Nil
      with e have "prefix t (c # cs)" by (simp add: prefix_def)
      then show ?thesis by simp
    next
      case (Cons a p')
      with e have "cs = p' @ t @ q" by simp
      then have "includes_str cs t" using Cons.IH by blast
      then show ?thesis by simp
    qed
  qed
qed

lemma search_Lit_Some:
  "search False (Lit l) s = Some (i, n, caps) \<Longrightarrow>
   \<exists>p q. s = p @ l @ q \<and> length p = i \<and> n = length l \<and> caps = []"
proof (induction s arbitrary: i)
  case Nil
  then have "l = [] \<and> i = 0 \<and> n = 0 \<and> caps = []" by (auto simp: exec_at_Lit split: if_splits)
  then have "[] = [] @ l @ [] \<and> length ([] :: jsstring) = i \<and> n = length l \<and> caps = []" by simp
  then show ?case by blast
next
  case (Cons c cs)
  show ?case
  proof (cases "prefix l (c # cs)")
    case True
    with Cons.prems have "i = 0" "n = length l" "caps = []" by (simp_all add: exec_at_Lit)
    moreover from True obtain q where "c # cs = l @ q" by (auto simp: prefix_def)
    ultimately have "c # cs = [] @ l @ q \<and> length ([] :: jsstring) = i \<and> n = length l \<and> caps = []"
      by simp
    then show ?thesis by blast
  next
    case False
    with Cons.prems obtain j where j: "search False (Lit l) cs = Some (j, n, caps)" "i = Suc j"
      by (auto simp: exec_at_Lit split: option.splits)
    from Cons.IH [OF j(1)] obtain p q where "cs = p @ l @ q" "length p = j" "n = length l" "caps = []"
      by blast
    with j(2) have "c # cs = (c # p) @ l @ q \<and> length (c # p) = i \<and> n = length l \<and> caps = []"
      by simp
    then show ?thesis by blast
  qed
qed

lemma search_Lit_None: "(search False (Lit l) s = None) = (\<not> includes_str s l)"
  by (induction s) (auto simp: exec_at_Lit split: option.splits)

lemma gs_prefix:
  "36 \<notin> set x \<Longrightarrow>
   get_substitution m b a caps (x @ t) = x @ get_substitution m b a caps t"
proof (induction x)
  case Nil
  show ?case by simp
next
  case (Cons c x)
  then have c: "c \<noteq> 36" and x: "36 \<notin> set x" by auto
  show ?case
  proof (cases "x @ t")
    case Nil
    then show ?thesis by simp
  next
    case (Cons d r)
    have "get_substitution m b a caps (c # d # r) = c # get_substitution m b a caps (d # r)"
      using c by simp
    with Cons Cons.IH [OF x] show ?thesis by simp
  qed
qed

lemma gs_plain: "36 \<notin> set t \<Longrightarrow> get_substitution m b a caps t = t"
  using gs_prefix [of t m b a caps "[]"] by simp


lemma replace_first_Lit_None:
  "\<not> includes_str s l \<Longrightarrow> replace_first False (Lit l) template s = s"
  by (simp add: replace_first_def search_Lit_None [symmetric])

lemma replace_first_Lit_Some:
  assumes "includes_str s l"
  shows "\<exists>p q. s = p @ l @ q
     \<and> replace_first False (Lit l) template s = p @ get_substitution l p q [] template @ q"
proof -
  from assms obtain i n caps where f: "search False (Lit l) s = Some (i, n, caps)"
    using search_Lit_None [of l s] by (cases "search False (Lit l) s") auto
  from search_Lit_Some [OF f] obtain p q where
    pq: "s = p @ l @ q" "length p = i" "n = length l" "caps = []" by blast
  have "replace_first False (Lit l) template s = p @ get_substitution l p q [] template @ q"
    unfolding replace_first_def f using pq by simp
  with pq(1) show ?thesis by blast
qed

lemma includes_str_mid: "includes_str (p @ t @ q) t"
  unfolding includes_str_iff by blast

lemma includes_str_left: "includes_str a t \<Longrightarrow> includes_str (a @ z) t"
proof -
  assume "includes_str a t"
  then obtain p q where "a = p @ t @ q" unfolding includes_str_iff by blast
  then have "a @ z = p @ t @ (q @ z)" by simp
  then show ?thesis unfolding includes_str_iff by blast
qed

lemma includes_str_right: "includes_str b t \<Longrightarrow> includes_str (z @ b) t"
proof -
  assume "includes_str b t"
  then obtain p q where "b = p @ t @ q" unfolding includes_str_iff by blast
  then have "z @ b = (z @ p) @ t @ q" by simp
  then show ?thesis unfolding includes_str_iff by blast
qed

lemma includes_str_skip:
  assumes "t \<noteq> []"
  shows "set t \<inter> set old = {} \<Longrightarrow> includes_str (old @ b) t \<Longrightarrow> includes_str b t"
proof (induction old)
  case Nil
  then show ?case by simp
next
  case (Cons c old)
  have "\<not> prefix t (c # old @ b)"
  proof
    assume "prefix t (c # old @ b)"
    with assms have "hd t = c" by (cases t) simp_all
    with assms Cons.prems(1) show False by (cases t) auto
  qed
  with Cons show ?case by auto
qed

lemma includes_str_split:
  assumes "set t \<inter> set old = {}" and "t \<noteq> []" and "old \<noteq> []"
  shows "includes_str (a @ old @ b) t \<Longrightarrow> includes_str a t \<or> includes_str b t"
proof (induction a)
  case Nil
  then show ?case using includes_str_skip [OF assms(2,1)] by simp
next
  case (Cons c a)
  from Cons.prems consider "prefix t (c # a @ old @ b)" | "includes_str (a @ old @ b) t" by auto
  then show ?case
  proof cases
    case 1
    then have "prefix t ((c # a) @ (old @ b))" by simp
    then consider "prefix t (c # a)" | us where "t = (c # a) @ us" "us \<noteq> []" "prefix us (old @ b)"
      unfolding prefix_append by (cases "prefix t (c # a)") auto
    then show ?thesis
    proof cases
      case 1
      then show ?thesis by simp
    next
      case 2
      from 2(2,3) assms(3) have "hd us = hd old" by (cases us; cases old) simp_all
      with 2(1,2) assms(3) have "hd old \<in> set t" "hd old \<in> set old" by (cases us; simp)+
      with assms(1) show ?thesis by auto
    qed
  next
    case 2
    with Cons.IH show ?thesis by auto
  qed
qed

lemma includes_str_replaced:
  assumes "set t \<inter> set old = {}" and "t \<noteq> []" and "old \<noteq> []"
    and "includes_str (a @ old @ b) t"
  shows "includes_str (a @ new @ b) t"
proof -
  from includes_str_split [OF assms] show ?thesis
  proof
    assume "includes_str a t"
    then show ?thesis by (rule includes_str_left)
  next
    assume "includes_str b t"
    then have "includes_str (new @ b) t" by (rule includes_str_right)
    then show ?thesis by (rule includes_str_right)
  qed
qed

lemma addContributor_without:
  "\<not> includes_str x (js ''</metadata>'') \<Longrightarrow> addContributor x = x"
  by (simp add: addContributor_def metadata_close_def replace_first_Lit_None)

lemma addDate_without:
  "\<not> includes_str x (js ''</metadata>'') \<Longrightarrow> addDate today x = x"
  by (simp add: addDate_def metadata_close_def replace_first_Lit_None)

lemma addContributor_with:
  assumes "includes_str x (js ''</metadata>'')"
  shows "includes_str (addContributor x) translator_label
     \<and> includes_str (addContributor x) (js ''</metadata>'')"
proof (cases "includes_str x translator_label")
  case True
  with assms show ?thesis by (simp add: addContributor_def)
next
  case False
  let ?t = "js ''    <dc:contributor>'' @ translator_label @ js '' '' @ translator metadata
       @ js ''</dc:contributor>'' @ [10] @ js ''  </metadata>''"
  from replace_first_Lit_Some [OF assms, of ?t] obtain p q where
    r: "replace_first False (Lit (js ''</metadata>'')) ?t x
        = p @ get_substitution (js ''</metadata>'') p q [] ?t @ q" by blast
  have "36 \<notin> set ?t" by (simp add: translator_label_def metadata_def js_def)
  then have g: "get_substitution (js ''</metadata>'') p q [] ?t = ?t" by (rule gs_plain)
  have a: "addContributor x = p @ ?t @ q"
    using False r unfolding g by (simp add: addContributor_def metadata_close_def)
  have "p @ ?t @ q = (p @ js ''    <dc:contributor>'') @ translator_label
      @ (js '' '' @ translator metadata @ js ''</dc:contributor>'' @ [10] @ js ''  </metadata>'' @ q)"
    by simp
  then have 1: "includes_str (p @ ?t @ q) translator_label"
    using includes_str_mid [of "p @ js ''    <dc:contributor>''" translator_label] by simp
  have "p @ ?t @ q = (p @ js ''    <dc:contributor>'' @ translator_label @ js '' ''
      @ translator metadata @ js ''</dc:contributor>'' @ [10] @ js ''  '') @ js ''</metadata>'' @ q"
    by (simp add: js_def)
  then have 2: "includes_str (p @ ?t @ q) (js ''</metadata>'')"
    using includes_str_mid [of _ "js ''</metadata>''" q] by metis
  from 1 2 show ?thesis unfolding a by simp
qed

lemma addDate_dated:
  assumes "includes_str y (js ''</metadata>'')"
  shows "includes_str (addDate today y) (js ''<dc:date>'')"
proof (cases "includes_str y (js ''<dc:date>'')")
  case True
  then show ?thesis by (simp add: addDate_def)
next
  case False
  let ?t = "js ''    <dc:date>'' @ today @ js ''</dc:date>'' @ [10] @ js ''  </metadata>''"
  from replace_first_Lit_Some [OF assms, of ?t] obtain p q where
    r: "replace_first False (Lit (js ''</metadata>'')) ?t y
        = p @ get_substitution (js ''</metadata>'') p q [] ?t @ q" by blast
  have "36 \<notin> set (js ''    <dc:date>'')" by (simp add: js_def)
  then have g: "get_substitution (js ''</metadata>'') p q [] ?t
      = js ''    <dc:date>'' @ get_substitution (js ''</metadata>'') p q []
          (today @ js ''</dc:date>'' @ [10] @ js ''  </metadata>'')" by (rule gs_prefix)
  have a: "addDate today y = (p @ js ''    '') @ js ''<dc:date>'' @
      (get_substitution (js ''</metadata>'') p q []
          (today @ js ''</dc:date>'' @ [10] @ js ''  </metadata>'') @ q)"
    using False r unfolding g by (simp add: addDate_def metadata_close_def js_def)
  show ?thesis unfolding a by (rule includes_str_mid)
qed

lemma addDate_keeps_label:
  assumes "includes_str y translator_label"
  shows "includes_str (addDate today y) translator_label"
proof (cases "includes_str y (js ''<dc:date>'') \<or> \<not> includes_str y (js ''</metadata>'')")
  case True
  then have "addDate today y = y"
  proof
    assume "includes_str y (js ''<dc:date>'')"
    then show ?thesis by (simp add: addDate_def)
  next
    assume "\<not> includes_str y (js ''</metadata>'')"
    then show ?thesis by (rule addDate_without)
  qed
  with assms show ?thesis by simp
next
  case False
  then have d: "\<not> includes_str y (js ''<dc:date>'')" and m: "includes_str y (js ''</metadata>'')"
    by simp_all
  let ?t = "js ''    <dc:date>'' @ today @ js ''</dc:date>'' @ [10] @ js ''  </metadata>''"
  from replace_first_Lit_Some [OF m, of ?t] obtain p q where y: "y = p @ js ''</metadata>'' @ q"
    and r: "replace_first False (Lit (js ''</metadata>'')) ?t y
        = p @ get_substitution (js ''</metadata>'') p q [] ?t @ q" by blast
  have a: "addDate today y = p @ get_substitution (js ''</metadata>'') p q [] ?t @ q"
    using d r by (simp add: addDate_def metadata_close_def)
  have "includes_str (p @ js ''</metadata>'' @ q) translator_label" using assms unfolding y .
  then show ?thesis unfolding a
    by (rule includes_str_replaced [rotated 3]) (simp_all add: translator_label_def js_def)
qed

section \<open>The decomposition of a two-chapter body\<close>

text \<open>
  Claim C3. The body
  \<^verbatim>\<open><h1 >A</h1><h2 >One</h2>text1<h2 >Two</h2>text2<h1 >B</h1><h2 >Three</h2>text3\<close>
  decomposes into exactly three chapter records, in document order: group A with title
  One in \<^verbatim>\<open>chapter1.xhtml\<close> and content text1, group A with title Two in
  \<^verbatim>\<open>chapter2.xhtml\<close> and content text2, group B with title Three in \<^verbatim>\<open>chapter3.xhtml\<close>
  and content text3.
\<close>

theorem decompose_two_chapters:
  "chapters (decompose \<lparr> chapterIndex = 0, chapters = [], written = [] \<rparr>
     (js ''<h1 >A</h1><h2 >One</h2>text1<h2 >Two</h2>text2<h1 >B</h1><h2 >Three</h2>text3'')) =
   [\<lparr> chapterGroup = js ''A'', title = js ''One'', filename = js ''chapter1.xhtml'',
        content = js ''text1'' \<rparr>,
    \<lparr> chapterGroup = js ''A'', title = js ''Two'', filename = js ''chapter2.xhtml'',
        content = js ''text2'' \<rparr>,
    \<lparr> chapterGroup = js ''B'', title = js ''Three'', filename = js ''chapter3.xhtml'',
        content = js ''text3'' \<rparr>]"
  by (simp add: re_ev build_ev)

section \<open>Numbering of the chapter files\<close>

text \<open>
  Claim C4. For every body, the file names of the emitted records are
  \<^verbatim>\<open>chapter1.xhtml\<close>, \<^verbatim>\<open>chapter2.xhtml\<close>, \<dots> up to the number of records, without a gap; and
  a second-level section whose content is empty or all whitespace after the truncation
  leaves the state of the loop as it was: no record, no file, no number used.
\<close>

theorem filenames_contiguous:
  "map filename (chapters (decompose \<lparr> chapterIndex = 0, chapters = [], written = w \<rparr> bodyContent))
     = map chapter_filename
         [1..<Suc (length (chapters
            (decompose \<lparr> chapterIndex = 0, chapters = [], written = w \<rparr> bodyContent)))]
   \<and> (\<forall>chapterName st h2Part n caps.
         exec_at False (heading_re ''</h2'') h2Part = Some (n, caps)
           \<and> (\<forall>c\<in>set (truncate_section (drop n h2Part)). is_ws c)
         \<longrightarrow> h2_step chapterName st h2Part = st)"
proof
  have "numbered \<lparr> chapterIndex = 0, chapters = [], written = w \<rparr>"
    by (simp add: numbered_def)
  then have "numbered (decompose \<lparr> chapterIndex = 0, chapters = [], written = w \<rparr> bodyContent)"
    by (rule numbered_decompose)
  then show "map filename
      (chapters (decompose \<lparr> chapterIndex = 0, chapters = [], written = w \<rparr> bodyContent))
     = map chapter_filename
         [1..<Suc (length (chapters
            (decompose \<lparr> chapterIndex = 0, chapters = [], written = w \<rparr> bodyContent)))]"
    by (simp add: numbered_def)
next
  show "\<forall>chapterName st h2Part n caps.
         exec_at False (heading_re ''</h2'') h2Part = Some (n, caps)
           \<and> (\<forall>c\<in>set (truncate_section (drop n h2Part)). is_ws c)
         \<longrightarrow> h2_step chapterName st h2Part = st"
    by (simp add: h2_step_def Let_def trim_empty)
qed

text \<open>A body whose first section holds one space only: the second section gets number 1,
  and the step of the blank section changes nothing.\<close>

theorem filenames_contiguous_witness:
  "map filename (chapters (decompose \<lparr> chapterIndex = 0, chapters = [], written = [] \<rparr>
       (js ''<h1 >A</h1><h2 >One</h2> <h2 >Two</h2>x'')))
     = [js ''chapter1.xhtml'']
   \<and> h2_step (js ''A'') \<lparr> chapterIndex = 0, chapters = [], written = [] \<rparr> (js ''One</h2> '')
     = \<lparr> chapterIndex = 0, chapters = [], written = [] \<rparr>"
proof -
  have c: "chapters (decompose \<lparr> chapterIndex = 0, chapters = [], written = [] \<rparr>
       (js ''<h1 >A</h1><h2 >One</h2> <h2 >Two</h2>x''))
     = [\<lparr> chapterGroup = js ''A'', title = js ''Two'', filename = js ''chapter1.xhtml'',
          content = js ''x'' \<rparr>]"
    by (simp add: re_ev build_ev)
  have e: "exec_at False (heading_re ''</h2'') (js ''One</h2> '') = Some (8, [js ''One''])"
    by (simp add: re_ev build_ev)
  have t: "\<forall>c\<in>set (truncate_section (drop 8 (js ''One</h2> ''))). is_ws c"
    by (simp add: re_ev build_ev)
  note inst = filenames_contiguous [of "[]" "js ''<h1 >A</h1><h2 >One</h2> <h2 >Two</h2>x''"]
  from inst [THEN conjunct2] e t
  have "h2_step (js ''A'') \<lparr> chapterIndex = 0, chapters = [], written = [] \<rparr> (js ''One</h2> '')
     = \<lparr> chapterIndex = 0, chapters = [], written = [] \<rparr>"
    by blast
  moreover from inst [THEN conjunct1] c
  have "map filename (chapters (decompose \<lparr> chapterIndex = 0, chapters = [], written = [] \<rparr>
       (js ''<h1 >A</h1><h2 >One</h2> <h2 >Two</h2>x''))) = [js ''chapter1.xhtml'']"
    by simp
  ultimately show ?thesis by simp
qed

section \<open>The text of a chapter file\<close>

text \<open>
  Claim C10. For every body, the files written by the decomposition are, in order, one
  per emitted record, and the body of the file of a record is not the content of the
  record alone: inside the XHTML shell it is the normalization of the content behind a
  regenerated \<^verbatim>\<open><h1>\<close> heading with the chapter-group name and a regenerated \<^verbatim>\<open><h2>\<close>
  heading with the section title. The normalization leaves the two headings as they are
  and works on the content, when the names hold no \<^verbatim>\<open>&\<close> (code unit 38): an entity
  \<^verbatim>\<open>&nbsp;\<close> or \<^verbatim>\<open>&copy;\<close> in a name is rewritten like one in the content.
\<close>

theorem chapter_files_prefixed:
  \<open>written (decompose \<lparr> chapterIndex = 0, chapters = [], written = [] \<rparr> bodyContent)
     = map (\<lambda>r. (js ''OEBPS/chapters/'' @ filename r,
             js ''<?xml version="1.0" encoding="UTF-8"?>'' @ [10] @ js ''<!DOCTYPE html>'' @ [10]
             @ js ''<html xmlns="http://www.w3.org/1999/xhtml" xml:lang="fa" dir="rtl">'' @ [10]
             @ js ''<head>'' @ [10] @ js ''  <meta charset="UTF-8"/>'' @ [10]
             @ js ''  <title>'' @ title r @ js ''</title>'' @ [10]
             @ js ''  <link rel="stylesheet" type="text/css" href="../css/style.css"/>'' @ [10]
             @ js ''</head>'' @ [10] @ js ''<body>'' @ [10] @ js ''  <div class="chapter">'' @ [10]
             @ normalize (js ''<h1>'' @ chapterGroup r @ js ''</h1>'' @ [10]
                 @ js ''<h2>'' @ title r @ js ''</h2>'' @ [10] @ content r)
             @ [10] @ js ''  </div>'' @ [10] @ js ''</body>'' @ [10] @ js ''</html>''))
         (chapters (decompose \<lparr> chapterIndex = 0, chapters = [], written = [] \<rparr> bodyContent))
   \<and> (\<forall>r\<in>set (chapters (decompose \<lparr> chapterIndex = 0, chapters = [], written = [] \<rparr> bodyContent)).
        38 \<notin> set (chapterGroup r) \<and> 38 \<notin> set (title r) \<longrightarrow>
        normalize (js ''<h1>'' @ chapterGroup r @ js ''</h1>'' @ [10]
            @ js ''<h2>'' @ title r @ js ''</h2>'' @ [10] @ content r)
          = js ''<h1>'' @ chapterGroup r @ js ''</h1>'' @ [10]
            @ js ''<h2>'' @ title r @ js ''</h2>'' @ [10] @ normalize (content r))\<close>
proof (rule conjI)
  show \<open>written (decompose \<lparr> chapterIndex = 0, chapters = [], written = [] \<rparr> bodyContent)
     = map (\<lambda>r. (js ''OEBPS/chapters/'' @ filename r,
             js ''<?xml version="1.0" encoding="UTF-8"?>'' @ [10] @ js ''<!DOCTYPE html>'' @ [10]
             @ js ''<html xmlns="http://www.w3.org/1999/xhtml" xml:lang="fa" dir="rtl">'' @ [10]
             @ js ''<head>'' @ [10] @ js ''  <meta charset="UTF-8"/>'' @ [10]
             @ js ''  <title>'' @ title r @ js ''</title>'' @ [10]
             @ js ''  <link rel="stylesheet" type="text/css" href="../css/style.css"/>'' @ [10]
             @ js ''</head>'' @ [10] @ js ''<body>'' @ [10] @ js ''  <div class="chapter">'' @ [10]
             @ normalize (js ''<h1>'' @ chapterGroup r @ js ''</h1>'' @ [10]
                 @ js ''<h2>'' @ title r @ js ''</h2>'' @ [10] @ content r)
             @ [10] @ js ''  </div>'' @ [10] @ js ''</body>'' @ [10] @ js ''</html>''))
         (chapters (decompose \<lparr> chapterIndex = 0, chapters = [], written = [] \<rparr> bodyContent))\<close>
    using written_decompose [of "[]" bodyContent]
    by (simp add: chapter_file_def [abs_def] xhtml_shell_def js_def)
next
  have "plain_headings (decompose \<lparr> chapterIndex = 0, chapters = [], written = [] \<rparr> bodyContent)"
    by (rule plain_decompose) (simp add: plain_headings_def)
  then have p: "60 \<notin> set (chapterGroup r) \<and> 60 \<notin> set (title r)"
    if "r \<in> set (chapters (decompose \<lparr> chapterIndex = 0, chapters = [], written = [] \<rparr> bodyContent))"
    for r using that unfolding plain_headings_def by (rule bspec)
  show \<open>\<forall>r\<in>set (chapters (decompose \<lparr> chapterIndex = 0, chapters = [], written = [] \<rparr> bodyContent)).
        38 \<notin> set (chapterGroup r) \<and> 38 \<notin> set (title r) \<longrightarrow>
        normalize (js ''<h1>'' @ chapterGroup r @ js ''</h1>'' @ [10]
            @ js ''<h2>'' @ title r @ js ''</h2>'' @ [10] @ content r)
          = js ''<h1>'' @ chapterGroup r @ js ''</h1>'' @ [10]
            @ js ''<h2>'' @ title r @ js ''</h2>'' @ [10] @ normalize (content r)\<close>
  proof (intro ballI impI)
    fix r
    assume r: "r \<in> set (chapters (decompose \<lparr> chapterIndex = 0, chapters = [], written = [] \<rparr> bodyContent))"
      and a: "38 \<notin> set (chapterGroup r) \<and> 38 \<notin> set (title r)"
    from p [OF r] a have "\<forall>x\<in>set (chapterGroup r). x \<noteq> 60 \<and> x \<noteq> 38"
      and "\<forall>x\<in>set (title r). x \<noteq> 60 \<and> x \<noteq> 38" by blast+
    then show "normalize (js ''<h1>'' @ chapterGroup r @ js ''</h1>'' @ [10]
            @ js ''<h2>'' @ title r @ js ''</h2>'' @ [10] @ content r)
          = js ''<h1>'' @ chapterGroup r @ js ''</h1>'' @ [10]
            @ js ''<h2>'' @ title r @ js ''</h2>'' @ [10] @ normalize (content r)"
      by (rule normalize_headings)
  qed
qed

text \<open>A body with one section: the file holds the two headings and the content, its
  \<^verbatim>\<open><br>\<close> closed by the normalization.\<close>

theorem chapter_files_prefixed_witness:
  \<open>written (decompose \<lparr> chapterIndex = 0, chapters = [], written = [] \<rparr>
      (js ''<h1 >A</h1><h2 >T</h2>x<br>y''))
     = [(js ''OEBPS/chapters/chapter1.xhtml'',
         js ''<?xml version="1.0" encoding="UTF-8"?>'' @ [10] @ js ''<!DOCTYPE html>'' @ [10]
         @ js ''<html xmlns="http://www.w3.org/1999/xhtml" xml:lang="fa" dir="rtl">'' @ [10]
         @ js ''<head>'' @ [10] @ js ''  <meta charset="UTF-8"/>'' @ [10]
         @ js ''  <title>T</title>'' @ [10]
         @ js ''  <link rel="stylesheet" type="text/css" href="../css/style.css"/>'' @ [10]
         @ js ''</head>'' @ [10] @ js ''<body>'' @ [10] @ js ''  <div class="chapter">'' @ [10]
         @ js ''<h1>A</h1>'' @ [10] @ js ''<h2>T</h2>'' @ [10] @ js ''x<br/>y''
         @ [10] @ js ''  </div>'' @ [10] @ js ''</body>'' @ [10] @ js ''</html>'')]\<close>
proof -
  have c: "chapters (decompose \<lparr> chapterIndex = 0, chapters = [], written = [] \<rparr>
      (js ''<h1 >A</h1><h2 >T</h2>x<br>y''))
     = [\<lparr> chapterGroup = js ''A'', title = js ''T'', filename = js ''chapter1.xhtml'',
          content = js ''x<br>y'' \<rparr>]"
    by (simp add: re_ev build_ev)
  have n: "normalize (js ''x<br>y'') = js ''x<br/>y''"
    by (simp add: normalize_def tag_open_def re_ev)
  note inst = chapter_files_prefixed [of "js ''<h1 >A</h1><h2 >T</h2>x<br>y''", unfolded c]
  note n' = n [unfolded js_def, simplified]
  from inst [THEN conjunct2] have h: "normalize (js ''<h1>'' @ js ''A'' @ js ''</h1>'' @ [10]
            @ js ''<h2>'' @ js ''T'' @ js ''</h2>'' @ [10] @ js ''x<br>y'')
          = js ''<h1>'' @ js ''A'' @ js ''</h1>'' @ [10]
            @ js ''<h2>'' @ js ''T'' @ js ''</h2>'' @ [10] @ js ''x<br/>y''"
    by (simp add: n' js_def)
  note h' = h [unfolded js_def, simplified]
  from inst [THEN conjunct1] show ?thesis
    by (simp add: h' js_def)
qed

section \<open>A document without a body\<close>

text \<open>
  Claim C8. For every input document in which the body pattern matches nowhere, the build
  reports that it could not find the body content and the process exits with status 1:
  there are no chapter records and no archive.
\<close>

theorem no_body_exits:
  "search False body_re allHtml = None \<Longrightarrow>
   buildEPUB env allHtml = Inl (Exit 1 ([10060] @ js '' Could not find body content''))"
  by (simp add: buildEPUB_def)

theorem no_body_exits_witness:
  "buildEPUB env_2024 (js ''<html><p>x</p></html>'')
     = Inl (Exit 1 ([10060] @ js '' Could not find body content''))"
proof -
  have "search False body_re (js ''<html><p>x</p></html>'') = None"
    by (simp add: re_ev body_re_def)
  then show ?thesis by (rule no_body_exits)
qed

section \<open>The command of the metadata patch\<close>

text \<open>
  Claim C9. In the metadata patch the \<^verbatim>\<open>mimetype\<close> file is written whenever the scratch
  directory has none, so the listing read afterwards always holds \<^verbatim>\<open>mimetype\<close>: for every
  directory the command is the one that stores \<^verbatim>\<open>mimetype\<close> first, uncompressed, and the
  plain recursive fallback is never chosen.
\<close>

theorem mimetype_always_first_command: "repackageCmd d = StoreMimetypeFirst"
  by (rule repackageCmd_store)

theorem mimetype_always_first_command_witness:
  "repackageCmd [(js ''content.opf'', File []), (js ''META-INF'', Directory)] = StoreMimetypeFirst"
  by (rule mimetype_always_first_command)

text \<open>
  Claim C2, amended. The first entry of every archive is named \<^verbatim>\<open>mimetype\<close> and is stored
  without compression. In an archive of the EPUB build it is a file with the text
  \<^verbatim>\<open>application/epub+zip\<close>. In an archive of the metadata patch it is the \<^verbatim>\<open>mimetype\<close> entry
  of the unpacked input as it was, and the file with the text \<^verbatim>\<open>application/epub+zip\<close> only
  when the input had none.
\<close>
theorem mimetype_entry_first:
  "(\<exists>rest. repackage d =
      (js ''mimetype'',
       (case map_of d (js ''mimetype'') of None \<Rightarrow> File (js ''application/epub+zip'') | Some x \<Rightarrow> x),
       Stored) # rest)
   \<and> (\<forall>r. buildEPUB env allHtml = Inr r \<longrightarrow>
        (\<exists>rest. epub r = (js ''mimetype'', File (js ''application/epub+zip''), Stored) # rest))"
  using repackage_first [of d] build_first [of env allHtml] by blast


text \<open>An input without \<^verbatim>\<open>mimetype\<close>, and a build from a body with one section.\<close>
theorem mimetype_entry_first_witness:
  "(\<exists>rest. repackage [(js ''content.opf'', File [])] =
      (js ''mimetype'', File (js ''application/epub+zip''), Stored) # rest)
   \<and> (\<exists>r rest. buildEPUB env_2024 (js ''<body><h1 >A</h1><h2 >T</h2>x</body>'') = Inr r
        \<and> epub r = (js ''mimetype'', File (js ''application/epub+zip''), Stored) # rest)"
proof -
  have ok: "\<exists>r. buildEPUB env_2024 (js ''<body><h1 >A</h1><h2 >T</h2>x</body>'') = Inr r"
    by (simp add: buildEPUB_def re_ev build_ev body_re_def createNav_def env_2024_def)
  have m: "map_of [(js ''content.opf'', File [])] (js ''mimetype'') = None"
    by (simp add: js_def)
  note inst = mimetype_entry_first [of "[(js ''content.opf'', File [])]" env_2024
      "js ''<body><h1 >A</h1><h2 >T</h2>x</body>''"]
  from inst [THEN conjunct1] m
  have "\<exists>rest. repackage [(js ''content.opf'', File [])] =
      (js ''mimetype'', File (js ''application/epub+zip''), Stored) # rest"
    by simp
  moreover from inst [THEN conjunct2] ok
  have "\<exists>r rest. buildEPUB env_2024 (js ''<body><h1 >A</h1><h2 >T</h2>x</body>'') = Inr r
        \<and> epub r = (js ''mimetype'', File (js ''application/epub+zip''), Stored) # rest"
    by blast
  ultimately show ?thesis by (rule conjI)
qed


text \<open>
  Claim C2 as stated fails for the metadata patch: an input whose \<^verbatim>\<open>mimetype\<close> file ends
  with a line feed keeps that file, and the first entry of the new archive holds the line
  feed as well.
\<close>
theorem mimetype_content_counterexample:
  "repackage [(js ''mimetype'', File (js ''application/epub+zip'' @ [10])), (js ''content.opf'', File [])]
     = [(js ''mimetype'', File (js ''application/epub+zip'' @ [10]), Stored),
        (js ''content.opf'', File [], Deflated)]
   \<and> File (js ''application/epub+zip'' @ [10]) \<noteq> File (js ''application/epub+zip'')"
  by (simp add: repackage_def repackageCmd_def zipCmd_def readdirSync_def ensureMimetype_def
      existsSync_def run_zip_def js_def)


section \<open>The contributor and date insertions\<close>

text \<open>
  Claim C7. Running the contributor insertion and the date insertion a second time, on
  whatever date, gives back the result of the first run as it is: no second contributor
  tag and no second date tag are inserted. After the first run on a text that holds
  \<^verbatim>\<open></metadata>\<close> the translator label and the start of the date tag are present, and
  they are what stops the second run; on a text without \<^verbatim>\<open></metadata>\<close> neither run
  inserts anything.
\<close>

theorem insertions_idempotent:
  "addDate today' (addContributor (addDate today (addContributor x)))
     = addDate today (addContributor x)
   \<and> (includes_str x (js ''</metadata>'') \<longrightarrow>
        includes_str (addDate today (addContributor x)) translator_label
        \<and> includes_str (addDate today (addContributor x)) (js ''<dc:date>''))"
proof (cases "includes_str x (js ''</metadata>'')")
  case False
  then have "addContributor x = x" "addDate today x = x" "addDate today' x = x"
    by (simp_all add: addContributor_without addDate_without)
  with False show ?thesis by simp
next
  case True
  from addContributor_with [OF True] have
    l: "includes_str (addContributor x) translator_label"
    and m: "includes_str (addContributor x) (js ''</metadata>'')" by simp_all
  have d: "includes_str (addDate today (addContributor x)) (js ''<dc:date>'')"
    using m by (rule addDate_dated)
  have l': "includes_str (addDate today (addContributor x)) translator_label"
    using l by (rule addDate_keeps_label)
  from l' have 1: "addContributor (addDate today (addContributor x)) = addDate today (addContributor x)"
    by (simp add: addContributor_def)
  from d have 2: "addDate today' (addDate today (addContributor x)) = addDate today (addContributor x)"
    by (simp add: addDate_def)
  from 1 2 d l' show ?thesis by simp
qed

text \<open>An empty metadata block: the first run inserts the contributor and the date of the
  run, the second run, on a later date, leaves both.\<close>

theorem insertions_idempotent_witness:
  "includes_str (js ''<metadata></metadata>'') (js ''</metadata>'')
   \<and> addDate (js ''2024-06-01'') (addContributor
        (addDate (js ''2024-01-01'') (addContributor (js ''<metadata></metadata>''))))
     = js ''<metadata>    <dc:contributor>'' @ [1578, 1585, 1580, 1605, 1607, 58, 32, 1580, 1575,
         1583, 1740, 32, 1605, 1740, 1585, 1605, 1740, 1585, 1575, 1606, 1740]
       @ js ''</dc:contributor>'' @ [10] @ js ''      <dc:date>2024-01-01</dc:date>'' @ [10]
       @ js ''  </metadata>''
   \<and> includes_str (addDate (js ''2024-01-01'') (addContributor (js ''<metadata></metadata>'')))
        translator_label
   \<and> includes_str (addDate (js ''2024-01-01'') (addContributor (js ''<metadata></metadata>'')))
        (js ''<dc:date>'')"
proof -
  have h: "includes_str (js ''<metadata></metadata>'') (js ''</metadata>'')"
    by (simp add: js_def)
  have e: "addDate (js ''2024-01-01'') (addContributor (js ''<metadata></metadata>''))
     = js ''<metadata>    <dc:contributor>'' @ [1578, 1585, 1580, 1605, 1607, 58, 32, 1580, 1575,
         1583, 1740, 32, 1605, 1740, 1585, 1605, 1740, 1585, 1575, 1606, 1740]
       @ js ''</dc:contributor>'' @ [10] @ js ''      <dc:date>2024-01-01</dc:date>'' @ [10]
       @ js ''  </metadata>''"
    by (simp add: addDate_def addContributor_def metadata_close_def translator_label_def
        metadata_def re_ev)
  note i = insertions_idempotent [of "js ''2024-06-01''" "js ''2024-01-01''"
      "js ''<metadata></metadata>''"]
  from i have 1: "addDate (js ''2024-06-01'') (addContributor
        (addDate (js ''2024-01-01'') (addContributor (js ''<metadata></metadata>''))))
     = addDate (js ''2024-01-01'') (addContributor (js ''<metadata></metadata>''))"
    by (rule conjunct1)
  from i h have 2: "includes_str (addDate (js ''2024-01-01'') (addContributor (js ''<metadata></metadata>'')))
        translator_label
   \<and> includes_str (addDate (js ''2024-01-01'') (addContributor (js ''<metadata></metadata>'')))
        (js ''<dc:date>'')" by blast
  from h 1 2 e show ?thesis by (intro conjI) simp_all
qed

section \<open>The package document\<close>

lemma opf_forEach_eq:
  "opf_forEach index cs (m, s) =
     (m @ concat (map2 (\<lambda>i c. manifest_item (chapter_id i) c) [index..<index + length cs] cs),
      s @ concat (map (\<lambda>i. spine_item (chapter_id i)) [index..<index + length cs]))"
proof (induction cs arbitrary: index m s)
  case Nil
  show ?case by simp
next
  case (Cons c cs)
  have u: "[index..<index + length (c # cs)] = index # [Suc index..<Suc index + length cs]"
    by (simp add: upt_rec)
  show ?case unfolding u by (simp add: Cons.IH chapter_id_def Let_def)
qed

text \<open>
  Claim C6. For every chapter-record sequence the package document consists of its head,
  then a manifest with one item for the navigation document, one for the stylesheet and
  exactly one per chapter record, which names the file of the record under the identifier
  \<^verbatim>\<open>chapter\<close> followed by the position of the record counted from 1, then a spine with
  right-to-left page progression that lists the navigation document first, marked
  non-linear, and then one reference per chapter record, to these identifiers in the
  order of the records.
\<close>

theorem package_document:
  \<open>createOPF env cs =
     opf_head env
     @ js ''    <item id="nav" href="nav.xhtml" media-type="application/''
     @ js ''xhtml+xml" properties="nav"/>'' @ [10]
     @ js ''    <item id="css" href="css/style.css" media-type="text/css'' @ js ''"/>'' @ [10]
     @ concat (map2 (\<lambda>i c. js ''    <item id="chapter'' @ toString (i + 1)
           @ js ''" href="chapters/'' @ filename c
           @ js ''" media-type="application/xhtml+xml"/>'' @ [10]) [0..<length cs] cs)
     @ js ''  </manifest>'' @ [10] @ js ''  '' @ [10]
     @ js ''  <spine page-progression-direction="rtl">'' @ [10]
     @ js ''    <itemref idref="nav" linear="no"/>'' @ [10]
     @ concat (map (\<lambda>i. js ''    <itemref idref="chapter'' @ toString (i + 1) @ js ''"/>'' @ [10])
         [0..<length cs])
     @ js ''  </spine>'' @ [10] @ js ''</package>''\<close>
  by (simp add: createOPF_def opf_forEach_eq opf_text_def opf_head_def css_item_def js_def
      manifest_item_def spine_item_def chapter_id_def)

text \<open>Two records: the manifest holds the navigation document, the stylesheet,
  \<^verbatim>\<open>chapter1\<close> and \<^verbatim>\<open>chapter2\<close> with their files, and the spine refers to the navigation
  document, to \<^verbatim>\<open>chapter1\<close> and to \<^verbatim>\<open>chapter2\<close>, in this order.\<close>

theorem package_document_witness:
  \<open>createOPF env_2024 [rec_a1, rec_b] =
     opf_head env_2024
     @ js ''    <item id="nav" href="nav.xhtml" media-type="application/''
     @ js ''xhtml+xml" properties="nav"/>'' @ [10]
     @ js ''    <item id="css" href="css/style.css" media-type="text/css'' @ js ''"/>'' @ [10]
     @ js ''    <item id="chapter1" href="chapters/chapter1.xhtml" media-''
     @ js ''type="application/xhtml+xml"/>'' @ [10]
     @ js ''    <item id="chapter2" href="chapters/chapter2.xhtml" media-''
     @ js ''type="application/xhtml+xml"/>'' @ [10]
     @ js ''  </manifest>'' @ [10] @ js ''  '' @ [10]
     @ js ''  <spine page-progression-direction="rtl">'' @ [10]
     @ js ''    <itemref idref="nav" linear="no"/>'' @ [10]
     @ js ''    <itemref idref="chapter1"/>'' @ [10]
     @ js ''    <itemref idref="chapter2"/>'' @ [10]
     @ js ''  </spine>'' @ [10] @ js ''</package>''\<close>
proof -
  have n: "[0..<length [rec_a1, rec_b]] = [0, 1]"
    by (simp add: upt_rec)
  have f: "filename rec_a1 = js ''chapter1.xhtml''" "filename rec_b = js ''chapter2.xhtml''"
    by (simp_all add: rec_a1_def rec_b_def)
  show ?thesis
    unfolding package_document [of env_2024 "[rec_a1, rec_b]"] n
    by (simp add: toString.simps f js_def)
qed

section \<open>The navigation document\<close>

lemma nav_run_eq:
  "nav_run r = nav_group (filename (last r)) (chapterGroup (hd r)) (concat (map nav_item r))"
  by (simp add: nav_run_def nav_group_def nav_item_def [abs_def])

lemma group_runs_append_same:
  assumes "r \<noteq> []" and "\<forall>d\<in>set r. chapterGroup d = g"
  shows "group_runs (r @ cs) =
     (r @ takeWhile (\<lambda>d. chapterGroup d = g) cs)
       # group_runs (dropWhile (\<lambda>d. chapterGroup d = g) cs)"
proof (cases r)
  case Nil
  with assms(1) show ?thesis by simp
next
  case (Cons x xs)
  with assms(2) have "chapterGroup x = g" and "\<forall>d\<in>set xs. chapterGroup d = g" by simp_all
  with Cons show ?thesis by (simp add: takeWhile_append2 dropWhile_append2)
qed

lemma nav_emit_runs:
  assumes "r \<noteq> []" and "\<forall>d\<in>set r. chapterGroup d = g"
  shows "nav_emit g (filename (last r)) (concat (map nav_item r)) cs
     = concat (map nav_run (group_runs (r @ cs)))"
  using assms
proof (induction cs arbitrary: r g)
  case Nil
  then have "chapterGroup (hd r) = g" by (cases r) simp_all
  moreover have "group_runs r = [r]"
    using group_runs_append_same [OF Nil.prems, of "[]"] by simp
  ultimately show ?case by (simp add: nav_run_eq)
next
  case (Cons c cs)
  from Cons.prems have hd: "chapterGroup (hd r) = g" by (cases r) simp_all
  show ?case
  proof (cases "chapterGroup c = g")
    case True
    have "nav_emit g (filename (last (r @ [c]))) (concat (map nav_item (r @ [c]))) cs
        = concat (map nav_run (group_runs ((r @ [c]) @ cs)))"
      by (rule Cons.IH) (use Cons.prems True in auto)
    with True show ?thesis by simp
  next
    case False
    have "nav_emit (chapterGroup c) (filename (last [c])) (concat (map nav_item [c])) cs
        = concat (map nav_run (group_runs ([c] @ cs)))"
      by (rule Cons.IH) simp_all
    moreover have "group_runs (r @ c # cs) = r # group_runs (c # cs)"
      using group_runs_append_same [OF Cons.prems, of "c # cs"] False by simp
    moreover have "nav_run r = nav_group (filename (last r)) g (concat (map nav_item r))"
      using hd by (simp add: nav_run_eq)
    ultimately show ?thesis using False by (simp del: group_runs.simps)
  qed
qed


lemma nth_before_last: "ps \<noteq> [] \<Longrightarrow> (ps @ cs) ! (length ps - 1) = last ps"
  by (simp add: nth_append last_conv_nth)

lemma nav_forEach_emit:
  assumes "all = ps @ cs" and "ps \<noteq> []" and "currentChapter st \<noteq> []"
    and "\<forall>c\<in>set cs. chapterGroup c \<noteq> []"
  shows "\<exists>st'. nav_forEach all (length ps) cs st = Inr st' \<and> currentChapter st' \<noteq> []
     \<and> navItems st' @ nav_group (filename (last all)) (currentChapter st') (chapterItems st')
       = navItems st @ nav_emit (currentChapter st) (filename (last ps)) (chapterItems st) cs"
  using assms
proof (induction cs arbitrary: ps st)
  case Nil
  then show ?case by simp
next
  case (Cons c cs)
  have all: "all = (ps @ [c]) @ cs" using Cons.prems(1) by simp
  have prev: "all ! (length ps - 1) = last ps"
    unfolding Cons.prems(1) using Cons.prems(2) by (rule nth_before_last)
  have nz: "length ps \<noteq> 0" using Cons.prems(2) by simp
  have lt: "\<not> length all < length ps" unfolding Cons.prems(1) by simp
  from Cons.prems(4) have c: "chapterGroup c \<noteq> []" and rest: "\<forall>c\<in>set cs. chapterGroup c \<noteq> []"
    by simp_all
  show ?case
  proof (cases "chapterGroup c = currentChapter st")
    case True
    let ?st = "st\<lparr> chapterItems := chapterItems st @ nav_item c \<rparr>"
    have "\<exists>st'. nav_forEach all (length (ps @ [c])) cs ?st = Inr st'
       \<and> currentChapter st' \<noteq> []
       \<and> navItems st' @ nav_group (filename (last all)) (currentChapter st') (chapterItems st')
         = navItems ?st @ nav_emit (currentChapter ?st) (filename (last (ps @ [c])))
            (chapterItems ?st) cs"
      by (rule Cons.IH [OF all]) (use Cons.prems(3) rest in simp_all)
    then show ?thesis using True by simp
  next
    case False
    let ?st = "\<lparr> navItems = navItems st
                  @ nav_group (filename (last ps)) (currentChapter st) (chapterItems st),
                currentChapter = chapterGroup c, chapterItems = nav_item c \<rparr>"
    have "\<exists>st'. nav_forEach all (length (ps @ [c])) cs ?st = Inr st'
       \<and> currentChapter st' \<noteq> []
       \<and> navItems st' @ nav_group (filename (last all)) (currentChapter st') (chapterItems st')
         = navItems ?st @ nav_emit (currentChapter ?st) (filename (last (ps @ [c])))
            (chapterItems ?st) cs"
      by (rule Cons.IH [OF all]) (use c rest in simp_all)
    then show ?thesis using False Cons.prems(3) nz prev lt by simp
  qed
qed

lemma createNav_emit:
  assumes "\<forall>c\<in>set (c # cs). chapterGroup c \<noteq> []"
  shows "createNav (c # cs)
     = Inr (nav_text (nav_emit (chapterGroup c) (filename c) (nav_item c) cs))"
proof -
  let ?st = "\<lparr> navItems = [], currentChapter = chapterGroup c, chapterItems = nav_item c \<rparr>"
  from assms have c: "chapterGroup c \<noteq> []" and rest: "\<forall>c\<in>set cs. chapterGroup c \<noteq> []"
    by simp_all
  have "\<exists>st'. nav_forEach (c # cs) (length [c]) cs ?st = Inr st' \<and> currentChapter st' \<noteq> []
     \<and> navItems st' @ nav_group (filename (last (c # cs))) (currentChapter st') (chapterItems st')
       = navItems ?st @ nav_emit (currentChapter ?st) (filename (last [c])) (chapterItems ?st) cs"
    by (rule nav_forEach_emit) (use c rest in simp_all)
  moreover have "last [c] = c" by simp
  ultimately show ?thesis using c by (auto simp: createNav_def simp del: last.simps)
qed


lemma group_runs_hd:
  "cs \<noteq> [] \<Longrightarrow> group_runs cs \<noteq> [] \<and> hd (hd (group_runs cs)) = hd cs"
  by (cases cs) simp_all

lemma group_runs_props:
  "concat (group_runs cs) = cs
   \<and> distinct_adj (map (\<lambda>r. chapterGroup (hd r)) (group_runs cs))
   \<and> (\<forall>r\<in>set (group_runs cs). r \<noteq> [] \<and> (\<forall>d\<in>set r. chapterGroup d = chapterGroup (hd r)))"
proof (induction cs rule: group_runs.induct)
  case 1
  show ?case by simp
next
  case (2 c cs)
  let ?P = "\<lambda>d. chapterGroup d = chapterGroup c"
  let ?rest = "group_runs (dropWhile ?P cs)"
  have gr: "group_runs (c # cs) = (c # takeWhile ?P cs) # ?rest" by simp
  have run: "\<forall>d\<in>set (c # takeWhile ?P cs). chapterGroup d = chapterGroup c"
  proof
    fix d
    assume "d \<in> set (c # takeWhile ?P cs)"
    then have "d = c \<or> d \<in> set (takeWhile ?P cs)" by simp
    then show "chapterGroup d = chapterGroup c"
    proof
      assume "d = c"
      then show ?thesis by simp
    next
      assume "d \<in> set (takeWhile ?P cs)"
      then have "d \<in> set cs \<and> ?P d" by (rule set_takeWhileD)
      then show ?thesis by (rule conjunct2)
    qed
  qed
  note ih1 = 2 [THEN conjunct1]
  note ih2 = 2 [THEN conjunct2, THEN conjunct1]
  note ih3 = 2 [THEN conjunct2, THEN conjunct2]
  have adj: "distinct_adj (chapterGroup c # map (\<lambda>r. chapterGroup (hd r)) ?rest)"
  proof (cases "dropWhile ?P cs")
    case Nil
    show ?thesis unfolding Nil by simp
  next
    case (Cons d ds)
    have "\<not> ?P (hd (dropWhile ?P cs))" by (rule hd_dropWhile) (simp add: Cons)
    then have ne: "chapterGroup c \<noteq> chapterGroup d" unfolding Cons by auto
    have g2: "group_runs (d # ds) = (d # takeWhile (\<lambda>e. chapterGroup e = chapterGroup d) ds)
        # group_runs (dropWhile (\<lambda>e. chapterGroup e = chapterGroup d) ds)" by simp
    from ih2 ne show ?thesis unfolding Cons g2 by simp
  qed
  have cat: "concat ((c # takeWhile ?P cs) # ?rest) = c # cs"
    by (simp add: ih1)
  have hom: "\<forall>r\<in>set ((c # takeWhile ?P cs) # ?rest).
      r \<noteq> [] \<and> (\<forall>d\<in>set r. chapterGroup d = chapterGroup (hd r))"
  proof
    fix r
    assume "r \<in> set ((c # takeWhile ?P cs) # ?rest)"
    then consider "r = c # takeWhile ?P cs" | "r \<in> set ?rest" by auto
    then show "r \<noteq> [] \<and> (\<forall>d\<in>set r. chapterGroup d = chapterGroup (hd r))"
    proof cases
      case 1
      show ?thesis unfolding 1 list.sel by (intro conjI run) simp
    next
      case 2
      with ih3 show ?thesis by blast
    qed
  qed
  from adj have adj': "distinct_adj (map (\<lambda>r. chapterGroup (hd r)) ((c # takeWhile ?P cs) # ?rest))"
    by simp
  show ?case unfolding gr by (intro conjI cat adj' hom)
qed


text \<open>
  The grouping when no chapter-group name is empty. For every such chapter-record sequence
  the navigation document is the nested ordered list with one nested list per run of
  consecutive records that share a chapter-group: the runs in order make up the sequence,
  every run has one group, and neighbouring runs have different groups, so a group name
  that comes back after another group gets a second nested list of its own.
\<close>
lemma createNav_groups:
  assumes "\<forall>c\<in>set cs. chapterGroup c \<noteq> []"
  shows "createNav cs = Inr (nav_text (concat (map nav_run (group_runs cs))))
     \<and> concat (group_runs cs) = cs
     \<and> distinct_adj (map (\<lambda>r. chapterGroup (hd r)) (group_runs cs))
     \<and> (\<forall>r\<in>set (group_runs cs). r \<noteq> [] \<and> (\<forall>d\<in>set r. chapterGroup d = chapterGroup (hd r)))"
proof -
  have "createNav cs = Inr (nav_text (concat (map nav_run (group_runs cs))))"
  proof (cases cs)
    case Nil
    then show ?thesis by (simp add: createNav_def)
  next
    case (Cons c cs')
    have "nav_emit (chapterGroup c) (filename (last [c])) (concat (map nav_item [c])) cs'
        = concat (map nav_run (group_runs ([c] @ cs')))"
      by (rule nav_emit_runs) simp_all
    moreover have "createNav (c # cs')
        = Inr (nav_text (nav_emit (chapterGroup c) (filename c) (nav_item c) cs'))"
      by (rule createNav_emit) (use assms Cons in simp)
    ultimately show ?thesis using Cons by (simp del: group_runs.simps)
  qed
  then show ?thesis using group_runs_props [of cs] by (rule conjI)
qed


text \<open>Groups A, B, A give three nested lists, the group A twice.\<close>

lemma createNav_groups_a_b_a:
  \<open>createNav [rec_a1, rec_b, rec_a2] = Inr (
      js ''<?xml version="1.0" encoding="UTF-8"?>'' @ [10] @ js ''<!DOCTYPE html>'' @ [10]
      @ js ''<html xmlns="http://www.w3.org/1999/xhtml" xmlns:epub="http:''
      @ js ''//www.idpf.org/2007/ops" xml:lang="fa" dir="rtl">'' @ [10] @ js ''<head>''
      @ [10] @ js ''  <meta charset="UTF-8"/>'' @ [10] @ js ''  <title>''
      @ [1601, 1607, 1585, 1587, 1578] @ js ''</title>'' @ [10]
      @ js ''  <link rel="stylesheet" type="text/css" href="css/style.css'' @ js ''"/>''
      @ [10] @ js ''</head>'' @ [10] @ js ''<body>'' @ [10] @ js ''  <nav epub:type="toc">''
      @ [10] @ js ''    <h1>'' @ [1601, 1607, 1585, 1587, 1578] @ js ''</h1>'' @ [10]
      @ js ''    <ol>'' @ [10]
      @ js ''      <li><a href="chapters/chapter1.xhtml">A</a>'' @ [10]
      @ js ''        <ol>'' @ [10]
      @ js ''          <li><a href="chapters/chapter1.xhtml">One</a></li>'' @ [10]
      @ js ''        </ol>'' @ [10] @ js ''      </li>'' @ [10]
      @ js ''      <li><a href="chapters/chapter2.xhtml">B</a>'' @ [10]
      @ js ''        <ol>'' @ [10]
      @ js ''          <li><a href="chapters/chapter2.xhtml">Two</a></li>'' @ [10]
      @ js ''        </ol>'' @ [10] @ js ''      </li>'' @ [10]
      @ js ''      <li><a href="chapters/chapter3.xhtml">A</a>'' @ [10]
      @ js ''        <ol>'' @ [10]
      @ js ''          <li><a href="chapters/chapter3.xhtml">Three</a></li>'' @ [10]
      @ js ''        </ol>'' @ [10] @ js ''      </li>'' @ [10]
      @ js ''    </ol>'' @ [10] @ js ''  </nav>'' @ [10] @ js ''</body>'' @ [10]
      @ js ''</html>'')\<close>
proof -
  have h: "\<forall>c\<in>set [rec_a1, rec_b, rec_a2]. chapterGroup c \<noteq> []"
    by (simp add: rec_a1_def rec_b_def rec_a2_def js_def)
  have g: "group_runs [rec_a1, rec_b, rec_a2] = [[rec_a1], [rec_b], [rec_a2]]"
    by (simp add: rec_a1_def rec_b_def rec_a2_def js_def)
  from createNav_groups [OF h, THEN conjunct1] show ?thesis
    unfolding g by (simp add: nav_text_def nav_run_def rec_a1_def rec_b_def rec_a2_def js_def)
qed


text \<open>
  Claim C5. The navigation document is to group every record of the sequence. It does
  not for a record whose chapter-group name is empty: the body
  \<^verbatim>\<open><h1 > </h1><h2 >T</h2>x\<close> gives one record with the empty group name and the file
  \<^verbatim>\<open>chapter1.xhtml\<close>. The loop of \<^verbatim>\<open>createNav\<close> collects the item of this record in
  \<^verbatim>\<open>chapterItems\<close>, but the empty name is also the value of \<^verbatim>\<open>currentChapter\<close> before
  the first group, so the guard \<^verbatim>\<open>currentChapter !== ''\<close> of the last group fails, the
  collected item is not added, and the list of the navigation document is empty. The
  package document made by \<^verbatim>\<open>createOPF\<close> from the same sequence lists \<^verbatim>\<open>chapter1\<close> in
  its manifest and in its spine.
\<close>

theorem createNav_blank_group:
  \<open>chapters (decompose \<lparr> chapterIndex = 0, chapters = [], written = [] \<rparr>
      (js ''<h1 > </h1><h2 >T</h2>x'')) = [rec_blank]
   \<and> nav_forEach [rec_blank] 0 [rec_blank] \<lparr> navItems = [], currentChapter = [], chapterItems = [] \<rparr>
      = Inr \<lparr> navItems = [], currentChapter = [],
              chapterItems = js ''          <li><a href="chapters/chapter1.xhtml">T</a></li>'' @ [10] \<rparr>
   \<and> createNav [rec_blank] = Inr (
      js ''<?xml version="1.0" encoding="UTF-8"?>'' @ [10] @ js ''<!DOCTYPE html>'' @ [10]
      @ js ''<html xmlns="http://www.w3.org/1999/xhtml" xmlns:epub="http:''
      @ js ''//www.idpf.org/2007/ops" xml:lang="fa" dir="rtl">'' @ [10] @ js ''<head>''
      @ [10] @ js ''  <meta charset="UTF-8"/>'' @ [10] @ js ''  <title>''
      @ [1601, 1607, 1585, 1587, 1578] @ js ''</title>'' @ [10]
      @ js ''  <link rel="stylesheet" type="text/css" href="css/style.css'' @ js ''"/>''
      @ [10] @ js ''</head>'' @ [10] @ js ''<body>'' @ [10] @ js ''  <nav epub:type="toc">''
      @ [10] @ js ''    <h1>'' @ [1601, 1607, 1585, 1587, 1578] @ js ''</h1>'' @ [10]
      @ js ''    <ol>'' @ [10]
      @ js ''    </ol>'' @ [10] @ js ''  </nav>'' @ [10] @ js ''</body>'' @ [10]
      @ js ''</html>'')
   \<and> createOPF env [rec_blank] =
      opf_head env
      @ js ''    <item id="nav" href="nav.xhtml" media-type="application/''
      @ js ''xhtml+xml" properties="nav"/>'' @ [10]
      @ js ''    <item id="css" href="css/style.css" media-type="text/css'' @ js ''"/>'' @ [10]
      @ js ''    <item id="chapter1" href="chapters/chapter1.xhtml" media-''
      @ js ''type="application/xhtml+xml"/>'' @ [10]
      @ js ''  </manifest>'' @ [10] @ js ''  '' @ [10]
      @ js ''  <spine page-progression-direction="rtl">'' @ [10]
      @ js ''    <itemref idref="nav" linear="no"/>'' @ [10]
      @ js ''    <itemref idref="chapter1"/>'' @ [10]
      @ js ''  </spine>'' @ [10] @ js ''</package>''\<close>
proof -
  have a: "chapters (decompose \<lparr> chapterIndex = 0, chapters = [], written = [] \<rparr>
      (js ''<h1 > </h1><h2 >T</h2>x'')) = [rec_blank]"
    by (simp add: re_ev build_ev rec_blank_def)
  have b: \<open>nav_forEach [rec_blank] 0 [rec_blank] \<lparr> navItems = [], currentChapter = [], chapterItems = [] \<rparr>
      = Inr \<lparr> navItems = [], currentChapter = [],
              chapterItems = js ''          <li><a href="chapters/chapter1.xhtml">T</a></li>'' @ [10] \<rparr>\<close>
    by (simp add: rec_blank_def nav_item_def js_def)
  note c = createNav_def [of "[rec_blank]", unfolded b]
  show ?thesis
    apply (intro conjI)
       apply (rule a)
      apply (rule b)
     apply (simp add: c nav_text_def js_def)
    apply (simp add: createOPF_def toString.simps Let_def opf_text_def opf_head_def css_item_def manifest_item_def
        spine_item_def rec_blank_def js_def)
    done
qed

end
